theory Spec2Isabelle
  imports Main
begin

section \<open>Source records (JSON objects returned by the legislative API)\<close>

text \<open>
  A JSON field that may be absent (\<open>undefined\<close> or \<open>null\<close> in JavaScript) is an
  \<open>option\<close>. Strings are lists of characters. The records carry the fields that
  \<open>sync-database.js\<close> reads.
\<close>

record organization =
  o_classification :: "string option"

record action =
  a_date :: "string option"
  a_description :: "string option"
  a_classification :: "string list option"
  a_organization :: "organization option"

record sponsorship =
  s_name :: "string option"
  s_classification :: "string option"
  s_entity_type :: "string option"
  s_primary :: "bool option"

record session =
  se_identifier :: "string option"

record version =
  v_url :: "string option"

record bill =
  b_id :: "string option"
  b_session :: "session option"
  b_identifier :: "string option"
  b_title :: "string option"
  b_description :: "string option"
  b_classification :: "string list option"
  b_subject :: "string list option"
  b_from_organization :: "organization option"
  b_first_action_date :: "string option"
  b_latest_action_date :: "string option"
  b_latest_action_description :: "string option"
  b_versions :: "version list option"
  b_actions :: "action list option"
  b_sponsorships :: "sponsorship list option"

section \<open>JavaScript helpers\<close>

text \<open>\<open>Boolean(v)\<close> for a value that is a string or absent: absent and the empty string are falsy.\<close>

definition truthy :: "string option \<Rightarrow> bool" where
  "truthy v = (case v of None \<Rightarrow> False | Some s \<Rightarrow> s \<noteq> [])"

text \<open>\<open>a || b\<close> on strings that may be absent.\<close>

definition js_or :: "string option \<Rightarrow> string option \<Rightarrow> string option" where
  "js_or a b = (if truthy a then a else b)"

text \<open>\<open>a.classification?.[0]\<close>: absent when the array is absent or empty.\<close>

definition first_classification :: "action \<Rightarrow> string option" where
  "first_classification a =
     (case a_classification a of None \<Rightarrow> None | Some [] \<Rightarrow> None | Some (t # ts) \<Rightarrow> Some t)"

text \<open>\<open>a.classification?.includes(t)\<close>: falsy when the array is absent.\<close>

definition classification_includes :: "string \<Rightarrow> action \<Rightarrow> bool" where
  "classification_includes t a =
     (case a_classification a of None \<Rightarrow> False | Some ts \<Rightarrow> t \<in> set ts)"

text \<open>\<open>s.includes(w)\<close> on strings: \<open>w\<close> occurs in \<open>s\<close> as a contiguous run.\<close>

fun starts_with :: "string \<Rightarrow> string \<Rightarrow> bool" where
  "starts_with s [] = True"
| "starts_with [] (c # w) = False"
| "starts_with (d # s) (c # w) = (d = c \<and> starts_with s w)"

fun str_includes :: "string \<Rightarrow> string \<Rightarrow> bool" where
  "str_includes [] w = (w = [])"
| "str_includes (c # s) w = (starts_with (c # s) w \<or> str_includes s w)"

text \<open>
  \<open>s.toLowerCase()\<close> on the code units \<open>A\<close> to \<open>Z\<close>; every other code unit is kept.
  (Outside ASCII JavaScript lowers further letters, none of them to a letter of the five
  keywords searched below in a way that completes a keyword.)
\<close>

definition lower_char :: "char \<Rightarrow> char" where
  "lower_char c =
     (case map_of (zip ''ABCDEFGHIJKLMNOPQRSTUVWXYZ'' ''abcdefghijklmnopqrstuvwxyz'') c of
        None \<Rightarrow> c
      | Some l \<Rightarrow> l)"

definition toLowerCase :: "string \<Rightarrow> string" where
  "toLowerCase s = map lower_char s"

section \<open>The stage classifier\<close>

text \<open>
  \<open>bill.actions.map(a => a.classification?.[0]).filter(Boolean)\<close>: the first tag of every
  action, absent and empty ones dropped.
\<close>

definition actionTypes :: "action list \<Rightarrow> string option list" where
  "actionTypes acts = filter truthy (map first_classification acts)"

definition includes_tag :: "string option list \<Rightarrow> string \<Rightarrow> bool" where
  "includes_tag ts t = (Some t \<in> set ts)"

definition passageActions :: "action list \<Rightarrow> action list" where
  "passageActions acts = filter (classification_includes ''passage'') acts"

text \<open>\<open>determineBillStage\<close> of \<open>database/sync-database.js\<close>, the copy the sync pipeline calls.\<close>

definition determineBillStage :: "bill \<Rightarrow> string" where
  "determineBillStage b =
     (case b_actions b of
        None \<Rightarrow> ''introduced''
      | Some acts \<Rightarrow>
          if length acts = 0 then ''introduced''
          else let ts = actionTypes acts in
            if includes_tag ts ''executive-signature'' then ''signed''
            else if includes_tag ts ''executive-veto'' then ''vetoed''
            else if includes_tag ts ''became-law'' then ''became_law''
            else if includes_tag ts ''passage'' then
              (if length (passageActions acts) \<ge> 2 then ''enrolled'' else ''passed_chamber'')
            else if includes_tag ts ''committee-passage'' then ''committee_approved''
            else if includes_tag ts ''referral-committee'' then ''committee''
            else if includes_tag ts ''reading-3'' then ''floor_calendar''
            else if includes_tag ts ''introduction'' then ''introduced''
            else ''introduced'')"

text \<open>
  The fallback of the servers' copy: \<open>bill.latest_action_description\<close>, lowered, searched
  for five keywords in order.
\<close>

definition description_stage :: "string option \<Rightarrow> string" where
  "description_stage d =
     (if truthy d then
        (let desc = toLowerCase (the d) in
           if str_includes desc ''signed'' then ''signed''
           else if str_includes desc ''veto'' then ''vetoed''
           else if str_includes desc ''enrolled'' then ''enrolled''
           else if str_includes desc ''passed'' then ''passed_chamber''
           else if str_includes desc ''committee'' then ''committee''
           else ''introduced'')
      else ''introduced'')"

text \<open>\<open>determineBillStage\<close> of \<open>server.js\<close> (and, identically, of \<open>server-enhanced.js\<close>).\<close>

definition determineBillStage_server :: "bill \<Rightarrow> string" where
  "determineBillStage_server b =
     (case b_actions b of
        None \<Rightarrow> ''introduced''
      | Some acts \<Rightarrow>
          if length acts = 0 then ''introduced''
          else let ts = actionTypes acts in
            if includes_tag ts ''executive-signature'' then ''signed''
            else if includes_tag ts ''executive-veto'' then ''vetoed''
            else if includes_tag ts ''became-law'' then ''became_law''
            else if includes_tag ts ''passage'' then
              (if length (passageActions acts) \<ge> 2 then ''enrolled'' else ''passed_chamber'')
            else if includes_tag ts ''committee-passage'' then ''committee_approved''
            else if includes_tag ts ''referral-committee'' \<or> includes_tag ts ''committee-referral''
              then ''committee''
            else if includes_tag ts ''reading-3'' then ''floor_calendar''
            else if includes_tag ts ''introduction'' \<or> includes_tag ts ''filing'' then ''introduced''
            else description_stage (b_latest_action_description b))"

section \<open>Storage: the tables of \<open>schema.sql\<close>\<close>

text \<open>
  A table is the list of its rows in insertion order. \<open>NOT NULL\<close> columns hold a value,
  the others an \<open>option\<close>. A \<open>SERIAL\<close> column draws its value from a counter kept beside
  the tables. Timestamps are readings of a clock passed to every statement. Every column
  that the sync writes is there but \<open>bills.openstates_url\<close> (a \<open>TEXT\<close> built from the
  session and bill identifiers, which are checked as parameters of their own) and the
  \<open>created_at\<close> defaults, which nothing reads.
\<close>

record legislator_row =
  l_id :: nat
  l_openstates_id :: string
  l_name :: string
  l_party :: "string option"
  l_chamber :: "string option"
  l_district :: "string option"
  l_image_url :: "string option"
  l_email :: "string option"
  l_phone :: "string option"
  l_created_at :: nat
  l_updated_at :: nat

record bill_row =
  r_id :: nat
  r_openstates_id :: string
  r_session_id :: string
  r_identifier :: string
  r_title :: string
  r_description :: "string option"
  r_classification :: "string option"
  r_subject :: "string list"
  r_current_status :: "string option"
  r_current_chamber :: "string option"
  r_stage :: "string option"
  r_first_action_date :: "string option"
  r_latest_action_date :: "string option"
  r_latest_action_description :: "string option"
  r_full_text_url :: "string option"
  r_updated_at :: nat

record action_row =
  ar_id :: nat
  ar_bill_id :: nat
  ar_date :: string
  ar_description :: string
  ar_classification :: "string option"
  ar_chamber :: "string option"
  ar_order_index :: nat

record history_row =
  h_id :: nat
  h_bill_id :: nat
  h_stage :: string
  h_status :: "string option"
  h_changed_at :: nat
  h_previous_stage :: "string option"

record sponsorship_row =
  sp_id :: nat
  sp_bill_id :: nat
  sp_legislator_id :: "nat option"
  sp_name :: string
  sp_classification :: "string option"
  sp_entity_type :: "string option"
  sp_primary_sponsor :: "bool option"

record metadata_row =
  m_sync_type :: string
  m_last_sync_at :: "nat option"
  m_last_success_at :: "nat option"
  m_status :: "string option"
  m_records_synced :: "nat option"
  m_error_message :: "string option"

record database =
  legislators :: "legislator_row list"
  bills :: "bill_row list"
  bill_actions :: "action_row list"
  bill_history :: "history_row list"
  sponsorships :: "sponsorship_row list"
  sync_metadata :: "metadata_row list"
  legislators_seq :: nat
  bills_seq :: nat
  bill_actions_seq :: nat
  bill_history_seq :: nat
  sponsorships_seq :: nat

text \<open>The database right after \<open>schema.sql\<close> has run: empty tables, four metadata rows.\<close>

definition pending_row :: "string \<Rightarrow> metadata_row" where
  "pending_row t = \<lparr>m_sync_type = t, m_last_sync_at = None, m_last_success_at = None,
     m_status = Some ''pending'', m_records_synced = None, m_error_message = None\<rparr>"

definition initial_database :: database where
  "initial_database = \<lparr>legislators = [], bills = [], bill_actions = [], bill_history = [],
     sponsorships = [],
     sync_metadata = map pending_row [''bills'', ''legislators'', ''actions'', ''votes''],
     legislators_seq = 1, bills_seq = 1, bill_actions_seq = 1, bill_history_seq = 1,
     sponsorships_seq = 1\<rparr>"

section \<open>Errors and column types\<close>

text \<open>
  A thrown JavaScript error, with its \<open>message\<close>. A storage statement throws when the
  storage rejects a parameter (a text with the character \<open>NUL\<close>, a text that is no date
  for a \<open>DATE\<close> column) or a row (a value too long for its \<open>VARCHAR\<close> column, a null
  in a \<open>NOT NULL\<close> column, a duplicate key, no serial id left). The storage being
  unreachable is not modelled, and the \<open>INTEGER\<close> columns receive positions in a list
  and counts of records of at most twenty pages, which are taken to fit.
\<close>

datatype error = FetchError string | StorageError string

fun message :: "error \<Rightarrow> string" where
  "message (FetchError m) = m"
| "message (StorageError m) = m"

type_synonym 'a stmt = "database \<Rightarrow> (error + 'a) \<times> database"

definition invalid_text :: error where
  "invalid_text = StorageError ''invalid byte sequence for encoding UTF8: 0x00''"

definition invalid_date :: error where
  "invalid_date = StorageError ''invalid input syntax for type date''"

definition invalid_json :: error where
  "invalid_json = StorageError ''unsupported Unicode escape sequence''"

definition too_long :: error where
  "too_long = StorageError ''value too long for type character varying''"

definition exhausted :: error where
  "exhausted = StorageError ''nextval: reached maximum value of sequence''"

definition null_value :: "string \<Rightarrow> error" where
  "null_value column = StorageError (''null value in column '' @ column)"

definition duplicate_key :: "string \<Rightarrow> error" where
  "duplicate_key index = StorageError (''duplicate key value violates unique constraint '' @ index)"

text \<open>
  What the repository takes from outside and \<open>src/\<close> does not hold: the \<open>DATE\<close> input
  conversion of the storage (the stored date of a text, or none when the text is no date)
  and the text that the database driver sends for an array parameter.
\<close>

record platform =
  date_in :: "string \<Rightarrow> string option"
  array_text :: "string list \<Rightarrow> string"

text \<open>A text parameter is rejected when it holds the character \<open>NUL\<close>.\<close>

definition text_ok :: "string option \<Rightarrow> bool" where
  "text_ok v = (case v of None \<Rightarrow> True | Some s \<Rightarrow> CHR 0x00 \<notin> set s)"

text \<open>
  A value is assigned to a \<open>VARCHAR(n)\<close> column when the characters beyond the first
  \<open>n\<close> are all spaces, and then the first \<open>n\<close> characters are stored.
\<close>

definition fits :: "nat \<Rightarrow> string option \<Rightarrow> bool" where
  "fits n v = (case v of None \<Rightarrow> True | Some s \<Rightarrow> list_all (\<lambda>c. c = CHR '' '') (drop n s))"

definition stored :: "nat \<Rightarrow> string option \<Rightarrow> string option" where
  "stored n v = map_option (take n) v"

definition date_ok :: "platform \<Rightarrow> string option \<Rightarrow> bool" where
  "date_ok pf v = (case v of None \<Rightarrow> True | Some s \<Rightarrow> date_in pf s \<noteq> None)"

definition stored_date :: "platform \<Rightarrow> string option \<Rightarrow> string option" where
  "stored_date pf v = (case v of None \<Rightarrow> None | Some s \<Rightarrow> date_in pf s)"

text \<open>The largest value of a \<open>SERIAL\<close> column.\<close>

definition max_serial :: nat where
  "max_serial = 2147483647"

section \<open>The statements of \<open>sync-database.js\<close>\<close>

text \<open>
  Every statement runs in the same order: the parameters are bound (a rejected parameter
  throws before anything is drawn or written), the serial id is drawn, the values are
  assigned to their columns, the \<open>NOT NULL\<close> columns are checked, and the row is
  inserted or, on a conflict, handled as the statement says.
\<close>

record party =
  p_name :: "string option"

record role =
  ro_chamber :: "string option"
  ro_district :: "string option"

record legislator =
  lg_id :: "string option"
  lg_name :: "string option"
  lg_party :: "party list option"
  lg_current_party :: "string option"
  lg_current_role :: "role option"
  lg_image :: "string option"
  lg_email :: "string option"
  lg_phone :: "string option"

text \<open>\<open>legislator.party?.[0]?.name || legislator.current_party\<close>\<close>

definition legislator_party :: "legislator \<Rightarrow> string option" where
  "legislator_party lg =
     js_or (case lg_party lg of None \<Rightarrow> None | Some [] \<Rightarrow> None | Some (p # ps) \<Rightarrow> p_name p)
           (lg_current_party lg)"

text \<open>\<open>legislator.current_role?.chamber\<close> and \<open>legislator.current_role?.district\<close>\<close>

definition legislator_chamber :: "legislator \<Rightarrow> string option" where
  "legislator_chamber lg = (case lg_current_role lg of None \<Rightarrow> None | Some ro \<Rightarrow> ro_chamber ro)"

definition legislator_district :: "legislator \<Rightarrow> string option" where
  "legislator_district lg = (case lg_current_role lg of None \<Rightarrow> None | Some ro \<Rightarrow> ro_district ro)"

text \<open>\<open>v || null\<close>\<close>

definition or_null :: "string option \<Rightarrow> string option" where
  "or_null v = (if truthy v then v else None)"

text \<open>The eight parameters of the legislator upsert, and their assignment to the columns.\<close>

definition legislator_params :: "legislator \<Rightarrow> string option list" where
  "legislator_params lg =
     [lg_id lg, lg_name lg, legislator_party lg, legislator_chamber lg, legislator_district lg,
      lg_image lg, or_null (lg_email lg), or_null (lg_phone lg)]"

definition legislator_fits :: "legislator \<Rightarrow> bool" where
  "legislator_fits lg =
     (fits 255 (lg_id lg) \<and> fits 255 (lg_name lg) \<and> fits 50 (legislator_party lg)
      \<and> fits 20 (legislator_chamber lg) \<and> fits 50 (legislator_district lg)
      \<and> fits 255 (or_null (lg_email lg)) \<and> fits 50 (or_null (lg_phone lg)))"

text \<open>
  \<open>INSERT INTO legislators ... ON CONFLICT (openstates_id) DO UPDATE SET name, party,
  chamber, district, updated_at\<close>. A row with the same \<open>openstates_id\<close> is updated in
  place, otherwise a row is appended.
\<close>

definition on_conflict_update_legislator ::
  "nat \<Rightarrow> string \<Rightarrow> string \<Rightarrow> legislator \<Rightarrow> legislator_row \<Rightarrow> legislator_row" where
  "on_conflict_update_legislator now oid nm lg r =
     (if l_openstates_id r = oid
      then r\<lparr>l_name := nm, l_party := stored 50 (legislator_party lg),
              l_chamber := stored 20 (legislator_chamber lg),
              l_district := stored 50 (legislator_district lg),
              l_updated_at := now\<rparr>
      else r)"

definition legislator_row_of :: "nat \<Rightarrow> nat \<Rightarrow> string \<Rightarrow> string \<Rightarrow> legislator \<Rightarrow> legislator_row" where
  "legislator_row_of now i oid nm lg =
     \<lparr>l_id = i, l_openstates_id = oid, l_name = nm,
      l_party = stored 50 (legislator_party lg),
      l_chamber = stored 20 (legislator_chamber lg),
      l_district = stored 50 (legislator_district lg),
      l_image_url = lg_image lg,
      l_email = stored 255 (or_null (lg_email lg)),
      l_phone = stored 50 (or_null (lg_phone lg)),
      l_created_at = now, l_updated_at = now\<rparr>"

definition upsert_legislator :: "nat \<Rightarrow> legislator \<Rightarrow> unit stmt" where
  "upsert_legislator now lg db =
     (if \<not> list_all text_ok (legislator_params lg) then (Inl invalid_text, db)
      else if legislators_seq db > max_serial then (Inl exhausted, db)
      else let i = legislators_seq db; db1 = db\<lparr>legislators_seq := i + 1\<rparr> in
        if \<not> legislator_fits lg then (Inl too_long, db1)
        else case stored 255 (lg_id lg) of
          None \<Rightarrow> (Inl (null_value ''openstates_id''), db1)
        | Some oid \<Rightarrow>
           (case stored 255 (lg_name lg) of
              None \<Rightarrow> (Inl (null_value ''name''), db1)
            | Some nm \<Rightarrow>
               if list_ex (\<lambda>r. l_openstates_id r = oid) (legislators db)
               then (Inr (), db1\<lparr>legislators :=
                       map (on_conflict_update_legislator now oid nm lg) (legislators db)\<rparr>)
               else if list_ex (\<lambda>r. l_id r = i) (legislators db)
               then (Inl (duplicate_key ''legislators_pkey''), db1)
               else (Inr (), db1\<lparr>legislators := legislators db @
                       [legislator_row_of now i oid nm lg]\<rparr>)))"

text \<open>\<open>bill.session?.identifier || '2026'\<close>\<close>

definition session_id :: "bill \<Rightarrow> string" where
  "session_id b =
     (case b_session b of
        None \<Rightarrow> ''2026''
      | Some se \<Rightarrow> (case se_identifier se of
                     None \<Rightarrow> ''2026''
                   | Some s \<Rightarrow> if s = [] then ''2026'' else s))"

text \<open>
  \<open>bill.from_organization?.classification\<close>, \<open>bill.versions?.[0]?.url || null\<close>, the driver's
  text of \<open>bill.classification\<close> and the array behind \<open>JSON.stringify(bill.subject || [])\<close>.
\<close>

definition bill_chamber :: "bill \<Rightarrow> string option" where
  "bill_chamber b = (case b_from_organization b of None \<Rightarrow> None | Some org \<Rightarrow> o_classification org)"

definition full_text_url :: "bill \<Rightarrow> string option" where
  "full_text_url b =
     or_null (case b_versions b of None \<Rightarrow> None | Some [] \<Rightarrow> None | Some (v # vs) \<Rightarrow> v_url v)"

definition bill_classification :: "platform \<Rightarrow> bill \<Rightarrow> string option" where
  "bill_classification pf b = map_option (array_text pf) (b_classification b)"

definition bill_subject :: "bill \<Rightarrow> string list" where
  "bill_subject b = (case b_subject b of None \<Rightarrow> [] | Some ss \<Rightarrow> ss)"

text \<open>
  The text parameters of the bill upsert (the dates among them), the check of the
  \<open>JSONB\<close> parameter, which may not hold an escaped \<open>NUL\<close>, and the assignment to the
  \<open>VARCHAR\<close> columns.
\<close>

definition bill_params :: "platform \<Rightarrow> bill \<Rightarrow> string \<Rightarrow> string option list" where
  "bill_params pf b stage =
     [b_id b, Some (session_id b), b_identifier b, b_title b,
      js_or (b_description b) (b_title b), bill_classification pf b,
      b_latest_action_description b, bill_chamber b, Some stage,
      b_first_action_date b, b_latest_action_date b, full_text_url b]"

definition subject_ok :: "bill \<Rightarrow> bool" where
  "subject_ok b = list_all (\<lambda>s. text_ok (Some s)) (bill_subject b)"

definition bill_fits :: "platform \<Rightarrow> bill \<Rightarrow> string \<Rightarrow> bool" where
  "bill_fits pf b stage =
     (fits 255 (b_id b) \<and> fits 100 (Some (session_id b)) \<and> fits 50 (b_identifier b)
      \<and> fits 50 (bill_classification pf b) \<and> fits 100 (b_latest_action_description b)
      \<and> fits 20 (bill_chamber b) \<and> fits 50 (Some stage))"

text \<open>
  \<open>INSERT INTO bills ... ON CONFLICT (openstates_id) DO UPDATE SET title, current_status,
  stage, latest_action_date, latest_action_description, updated_at RETURNING id, stage,
  (SELECT stage FROM bills WHERE openstates_id = $1) as old_stage\<close>. The sub-select reads
  the table as it was before the statement, so \<open>old_stage\<close> is the stage stored before
  this write for the parameter \<open>$1\<close>, and null when no row has this \<open>openstates_id\<close>.
  The statement yields the row's id and \<open>old_stage\<close>.
\<close>

definition old_stage :: "database \<Rightarrow> string option \<Rightarrow> string option" where
  "old_stage db p =
     (case p of
        None \<Rightarrow> None
      | Some oid \<Rightarrow> (case find (\<lambda>r. r_openstates_id r = oid) (bills db) of
                       None \<Rightarrow> None
                     | Some r \<Rightarrow> r_stage r))"

definition on_conflict_update_bill ::
  "platform \<Rightarrow> nat \<Rightarrow> string \<Rightarrow> string \<Rightarrow> bill \<Rightarrow> string \<Rightarrow> bill_row \<Rightarrow> bill_row" where
  "on_conflict_update_bill pf now oid t b stage r =
     (if r_openstates_id r = oid
      then r\<lparr>r_title := t, r_current_status := stored 100 (b_latest_action_description b),
              r_stage := stored 50 (Some stage),
              r_latest_action_date := stored_date pf (b_latest_action_date b),
              r_latest_action_description := b_latest_action_description b,
              r_updated_at := now\<rparr>
      else r)"

definition bill_row_of ::
  "platform \<Rightarrow> nat \<Rightarrow> nat \<Rightarrow> string \<Rightarrow> string \<Rightarrow> string \<Rightarrow> bill \<Rightarrow> string \<Rightarrow> bill_row" where
  "bill_row_of pf now i oid ident t b stage =
     \<lparr>r_id = i, r_openstates_id = oid,
      r_session_id = take 100 (session_id b),
      r_identifier = ident, r_title = t,
      r_description = js_or (b_description b) (b_title b),
      r_classification = stored 50 (bill_classification pf b),
      r_subject = bill_subject b,
      r_current_status = stored 100 (b_latest_action_description b),
      r_current_chamber = stored 20 (bill_chamber b),
      r_stage = stored 50 (Some stage),
      r_first_action_date = stored_date pf (b_first_action_date b),
      r_latest_action_date = stored_date pf (b_latest_action_date b),
      r_latest_action_description = b_latest_action_description b,
      r_full_text_url = full_text_url b,
      r_updated_at = now\<rparr>"

definition upsert_bill :: "platform \<Rightarrow> nat \<Rightarrow> bill \<Rightarrow> string \<Rightarrow> (nat \<times> string option) stmt" where
  "upsert_bill pf now b stage db =
     (if \<not> list_all text_ok (bill_params pf b stage) then (Inl invalid_text, db)
      else if \<not> subject_ok b then (Inl invalid_json, db)
      else if \<not> (date_ok pf (b_first_action_date b) \<and> date_ok pf (b_latest_action_date b))
        then (Inl invalid_date, db)
      else if bills_seq db > max_serial then (Inl exhausted, db)
      else let i = bills_seq db; db1 = db\<lparr>bills_seq := i + 1\<rparr> in
        if \<not> bill_fits pf b stage then (Inl too_long, db1)
        else case stored 255 (b_id b) of
          None \<Rightarrow> (Inl (null_value ''openstates_id''), db1)
        | Some oid \<Rightarrow>
           (case stored 50 (b_identifier b) of
              None \<Rightarrow> (Inl (null_value ''identifier''), db1)
            | Some ident \<Rightarrow>
               (case b_title b of
                  None \<Rightarrow> (Inl (null_value ''title''), db1)
                | Some t \<Rightarrow>
                   (case find (\<lambda>r. r_openstates_id r = oid) (bills db) of
                      Some row \<Rightarrow>
                        (Inr (r_id row, old_stage db (b_id b)),
                         db1\<lparr>bills := map (on_conflict_update_bill pf now oid t b stage) (bills db)\<rparr>)
                    | None \<Rightarrow>
                        if list_ex (\<lambda>r. r_id r = i) (bills db)
                        then (Inl (duplicate_key ''bills_pkey''), db1)
                        else (Inr (i, old_stage db (b_id b)),
                              db1\<lparr>bills := bills db @
                                [bill_row_of pf now i oid ident t b stage]\<rparr>)))))"

text \<open>\<open>INSERT INTO bill_history (bill_id, stage, status, previous_stage)\<close>\<close>

definition history_row_of ::
  "nat \<Rightarrow> nat \<Rightarrow> nat \<Rightarrow> string \<Rightarrow> string option \<Rightarrow> string option \<Rightarrow> history_row" where
  "history_row_of now i billId stage status oldStage =
     \<lparr>h_id = i, h_bill_id = billId, h_stage = take 50 stage,
      h_status = stored 100 status, h_changed_at = now,
      h_previous_stage = stored 50 oldStage\<rparr>"

definition insert_history :: "nat \<Rightarrow> nat \<Rightarrow> string \<Rightarrow> string option \<Rightarrow> string option \<Rightarrow> unit stmt" where
  "insert_history now billId stage status oldStage db =
     (if \<not> list_all text_ok [Some stage, status, oldStage] then (Inl invalid_text, db)
      else if bill_history_seq db > max_serial then (Inl exhausted, db)
      else let i = bill_history_seq db; db1 = db\<lparr>bill_history_seq := i + 1\<rparr> in
        if \<not> (fits 50 (Some stage) \<and> fits 100 status \<and> fits 50 oldStage)
        then (Inl too_long, db1)
        else if list_ex (\<lambda>r. h_id r = i) (bill_history db)
        then (Inl (duplicate_key ''bill_history_pkey''), db1)
        else (Inr (), db1\<lparr>bill_history := bill_history db @
                [history_row_of now i billId stage status oldStage]\<rparr>))"

text \<open>
  \<open>INSERT INTO bill_actions (...) ON CONFLICT DO NOTHING\<close>. The only unique index of
  \<open>bill_actions\<close> in \<open>schema.sql\<close> is its primary key \<open>id\<close>, so the row is skipped only
  when the freshly drawn id is already taken.
\<close>

definition action_classification :: "action \<Rightarrow> string option" where
  "action_classification a = or_null (first_classification a)"

definition action_chamber :: "action \<Rightarrow> string option" where
  "action_chamber a = (case a_organization a of None \<Rightarrow> None | Some org \<Rightarrow> o_classification org)"

definition action_row_of :: "nat \<Rightarrow> nat \<Rightarrow> string \<Rightarrow> string \<Rightarrow> action \<Rightarrow> nat \<Rightarrow> action_row" where
  "action_row_of n billId d ds a i =
     \<lparr>ar_id = n, ar_bill_id = billId, ar_date = d, ar_description = ds,
      ar_classification = stored 100 (action_classification a),
      ar_chamber = stored 20 (action_chamber a),
      ar_order_index = i\<rparr>"

definition insert_action :: "platform \<Rightarrow> nat \<Rightarrow> action \<Rightarrow> nat \<Rightarrow> unit stmt" where
  "insert_action pf billId a i db =
     (if \<not> list_all text_ok [a_date a, a_description a, action_classification a, action_chamber a]
        then (Inl invalid_text, db)
      else if \<not> date_ok pf (a_date a) then (Inl invalid_date, db)
      else if bill_actions_seq db > max_serial then (Inl exhausted, db)
      else let n = bill_actions_seq db; db1 = db\<lparr>bill_actions_seq := n + 1\<rparr> in
        if \<not> (fits 100 (action_classification a) \<and> fits 20 (action_chamber a))
        then (Inl too_long, db1)
        else case stored_date pf (a_date a) of
          None \<Rightarrow> (Inl (null_value ''date''), db1)
        | Some d \<Rightarrow>
           (case a_description a of
              None \<Rightarrow> (Inl (null_value ''description''), db1)
            | Some ds \<Rightarrow>
               if list_ex (\<lambda>r. ar_id r = n) (bill_actions db)
               then (Inr (), db1)
               else (Inr (), db1\<lparr>bill_actions := bill_actions db @
                       [action_row_of n billId d ds a i]\<rparr>)))"

text \<open>\<open>for (let i = 0; i < bill.actions.length; i++)\<close>, stopped by the first error.\<close>

fun sync_actions :: "platform \<Rightarrow> nat \<Rightarrow> action list \<Rightarrow> nat \<Rightarrow> unit stmt" where
  "sync_actions pf billId [] i db = (Inr (), db)"
| "sync_actions pf billId (a # as) i db =
     (case insert_action pf billId a i db of
        (Inl e, db1) \<Rightarrow> (Inl e, db1)
      | (Inr u, db1) \<Rightarrow> sync_actions pf billId as (i + 1) db1)"

text \<open>
  \<open>SELECT id FROM legislators WHERE name = $1 LIMIT 1\<close>, then
  \<open>legislatorResult.rows[0]?.id || null\<close> (the first matching row in table order).
\<close>

definition find_legislator_id :: "string option \<Rightarrow> database \<Rightarrow> nat option" where
  "find_legislator_id nm db =
     (case nm of
        None \<Rightarrow> None
      | Some n \<Rightarrow> (case find (\<lambda>r. l_name r = n) (legislators db) of
                     None \<Rightarrow> None
                   | Some r \<Rightarrow> if l_id r = 0 then None else Some (l_id r)))"

text \<open>The lookup and \<open>INSERT INTO sponsorships (...) ON CONFLICT DO NOTHING\<close>.\<close>

definition sponsorship_row_of :: "nat \<Rightarrow> nat \<Rightarrow> string \<Rightarrow> sponsorship \<Rightarrow> database \<Rightarrow> sponsorship_row" where
  "sponsorship_row_of n billId nm sp db =
     \<lparr>sp_id = n, sp_bill_id = billId,
      sp_legislator_id = find_legislator_id (s_name sp) db,
      sp_name = nm, sp_classification = stored 50 (s_classification sp),
      sp_entity_type = stored 50 (s_entity_type sp),
      sp_primary_sponsor =
        (if s_classification sp = Some ''primary'' then Some True else s_primary sp)\<rparr>"

definition insert_sponsorship :: "nat \<Rightarrow> sponsorship \<Rightarrow> unit stmt" where
  "insert_sponsorship billId sp db =
     (if \<not> list_all text_ok [s_name sp, s_classification sp, s_entity_type sp]
        then (Inl invalid_text, db)
      else if sponsorships_seq db > max_serial then (Inl exhausted, db)
      else let n = sponsorships_seq db; db1 = db\<lparr>sponsorships_seq := n + 1\<rparr> in
        if \<not> (fits 255 (s_name sp) \<and> fits 50 (s_classification sp) \<and> fits 50 (s_entity_type sp))
        then (Inl too_long, db1)
        else case stored 255 (s_name sp) of
          None \<Rightarrow> (Inl (null_value ''name''), db1)
        | Some nm \<Rightarrow>
           if list_ex (\<lambda>r. sp_id r = n) (sponsorships db)
           then (Inr (), db1)
           else (Inr (), db1\<lparr>sponsorships := sponsorships db @
                   [sponsorship_row_of n billId nm sp db]\<rparr>))"

text \<open>A \<open>for ... of\<close> loop over records, stopped by the first error.\<close>

fun for_each :: "('a \<Rightarrow> unit stmt) \<Rightarrow> 'a list \<Rightarrow> unit stmt" where
  "for_each f [] db = (Inr (), db)"
| "for_each f (x # xs) db =
     (case f x db of
        (Inl e, db1) \<Rightarrow> (Inl e, db1)
      | (Inr u, db1) \<Rightarrow> for_each f xs db1)"

text \<open>One awaited statement after another: the second runs when the first has returned.\<close>

definition and_then :: "unit stmt \<Rightarrow> unit stmt \<Rightarrow> unit stmt" where
  "and_then s t db = (case s db of (Inl e, db1) \<Rightarrow> (Inl e, db1) | (Inr u, db1) \<Rightarrow> t db1)"

text \<open>
  The three steps after the upsert in the body of \<open>for (const bill of bills)\<close>: the
  history row on a stage change, the actions, the sponsorships.
\<close>

definition track_stage_change :: "nat \<Rightarrow> bill \<Rightarrow> nat \<Rightarrow> string \<Rightarrow> string option \<Rightarrow> unit stmt" where
  "track_stage_change now b billId stage oldStage db =
     (if truthy oldStage \<and> oldStage \<noteq> Some stage
      then insert_history now billId stage (b_latest_action_description b) oldStage db
      else (Inr (), db))"

definition sync_bill_actions :: "platform \<Rightarrow> bill \<Rightarrow> nat \<Rightarrow> unit stmt" where
  "sync_bill_actions pf b billId db =
     (case b_actions b of None \<Rightarrow> (Inr (), db) | Some acts \<Rightarrow> sync_actions pf billId acts 0 db)"

definition sync_bill_sponsorships :: "bill \<Rightarrow> nat \<Rightarrow> unit stmt" where
  "sync_bill_sponsorships b billId db =
     (case b_sponsorships b of
        None \<Rightarrow> (Inr (), db)
      | Some sps \<Rightarrow> for_each (insert_sponsorship billId) sps db)"

text \<open>The body of \<open>for (const bill of bills)\<close> in \<open>syncBills\<close>.\<close>

definition sync_bill :: "platform \<Rightarrow> nat \<Rightarrow> bill \<Rightarrow> unit stmt" where
  "sync_bill pf now b db =
     (let stage = determineBillStage b in
      case upsert_bill pf now b stage db of
        (Inl e, db1) \<Rightarrow> (Inl e, db1)
      | (Inr (billId, oldStage), db1) \<Rightarrow>
          and_then (track_stage_change now b billId stage oldStage)
            (and_then (sync_bill_actions pf b billId) (sync_bill_sponsorships b billId)) db1)"

text \<open>
  \<open>UPDATE sync_metadata SET ... WHERE sync_type = t\<close>, on success and in the \<open>catch\<close>
  block; the message is a \<open>TEXT\<close> parameter.
\<close>

definition metadata_success :: "nat \<Rightarrow> string \<Rightarrow> nat \<Rightarrow> database \<Rightarrow> database" where
  "metadata_success now t n db =
     db\<lparr>sync_metadata :=
          map (\<lambda>m. if m_sync_type m = t
                    then m\<lparr>m_last_sync_at := Some now, m_last_success_at := Some now,
                            m_status := Some ''success'', m_records_synced := Some n\<rparr>
                    else m) (sync_metadata db)\<rparr>"

definition metadata_error :: "nat \<Rightarrow> string \<Rightarrow> string \<Rightarrow> unit stmt" where
  "metadata_error now t msg db =
     (if \<not> text_ok (Some msg) then (Inl invalid_text, db)
      else (Inr (), db\<lparr>sync_metadata :=
          map (\<lambda>m. if m_sync_type m = t
                    then m\<lparr>m_last_sync_at := Some now, m_status := Some ''error'',
                            m_error_message := Some msg\<rparr>
                    else m) (sync_metadata db)\<rparr>))"

section \<open>The source API and the paging loops\<close>

text \<open>
  A JSON number that may be missing in either way. JavaScript compares a number with
  \<open>undefined\<close> as with \<open>NaN\<close> (never greater or equal) and with \<open>null\<close> as with 0.
\<close>

datatype json_number = Undefined | Null | Number int

record pagination =
  pg_max_page :: json_number

record 'a response =
  rs_results :: "'a list"
  rs_pagination :: "pagination option"

text \<open>
  What the source answers to the request for a page of an endpoint: a thrown error
  (network failure, timeout, status outside 2xx) or a response.
\<close>

record source =
  get_people :: "nat \<Rightarrow> error + legislator response"
  get_bills :: "nat \<Rightarrow> error + bill response"

text \<open>The state a run acts on: the database and the log of requests sent to the source.\<close>

record world =
  w_db :: database
  w_requests :: "(string \<times> nat) list"

text \<open>\<open>!response.data.pagination || page >= response.data.pagination.max_page\<close>\<close>

definition no_further_pages :: "'a response \<Rightarrow> nat \<Rightarrow> bool" where
  "no_further_pages resp page =
     (case rs_pagination resp of
        None \<Rightarrow> True
      | Some pg \<Rightarrow> (case pg_max_page pg of
                      Undefined \<Rightarrow> False
                    | Null \<Rightarrow> int page \<ge> 0
                    | Number m \<Rightarrow> int page \<ge> m))"

text \<open>
  One round of the \<open>while (page <= cap)\<close> loop that \<open>syncLegislators\<close> and \<open>syncBills\<close>
  both contain: the endpoint, its answers and the per-record body are parameters. A
  round either leaves the loop (by \<open>break\<close> or by a thrown error) or goes on with the
  new \<open>totalSynced\<close>.
\<close>

datatype round = Leave "error + nat" world | Next_page nat world

definition page_round ::
  "string \<Rightarrow> (nat \<Rightarrow> error + 'a response) \<Rightarrow> ('a \<Rightarrow> unit stmt) \<Rightarrow> nat \<Rightarrow> nat \<Rightarrow> world \<Rightarrow> round" where
  "page_round endpoint fetch body page totalSynced w =
     (let w1 = w\<lparr>w_requests := w_requests w @ [(endpoint, page)]\<rparr> in
      case fetch page of
        Inl e \<Rightarrow> Leave (Inl e) w1
      | Inr resp \<Rightarrow>
         if length (rs_results resp) = 0 then Leave (Inr totalSynced) w1
         else (case for_each body (rs_results resp) (w_db w1) of
                 (Inl e, db1) \<Rightarrow> Leave (Inl e) (w1\<lparr>w_db := db1\<rparr>)
               | (Inr u, db1) \<Rightarrow>
                  if no_further_pages resp page
                  then Leave (Inr (totalSynced + length (rs_results resp))) (w1\<lparr>w_db := db1\<rparr>)
                  else Next_page (totalSynced + length (rs_results resp)) (w1\<lparr>w_db := db1\<rparr>)))"

function page_loop ::
  "nat \<Rightarrow> string \<Rightarrow> (nat \<Rightarrow> error + 'a response) \<Rightarrow> ('a \<Rightarrow> unit stmt) \<Rightarrow> nat \<Rightarrow> nat \<Rightarrow> world
     \<Rightarrow> (error + nat) \<times> world" where
  "page_loop cap endpoint fetch body page totalSynced w =
     (if page \<le> cap
      then (case page_round endpoint fetch body page totalSynced w of
              Leave r w1 \<Rightarrow> (r, w1)
            | Next_page n w1 \<Rightarrow> page_loop cap endpoint fetch body (page + 1) n w1)
      else (Inr totalSynced, w))"
  by pat_completeness auto
termination
  by (relation "measure (\<lambda>(cap, endpoint, fetch, body, page, totalSynced, w). cap + 1 - page)") auto

definition legislator_page_cap :: nat where
  "legislator_page_cap = 10"

definition maxPages :: nat where
  "maxPages = 20"

text \<open>
  The \<open>catch\<close> block of both syncs: the metadata \<open>UPDATE\<close>, then \<open>throw error\<close>. When the
  \<open>UPDATE\<close> itself throws, its error is the one that leaves the block.
\<close>

definition catch_block :: "nat \<Rightarrow> string \<Rightarrow> error \<Rightarrow> world \<Rightarrow> (error + nat) \<times> world" where
  "catch_block now t e w =
     (case metadata_error now t (message e) (w_db w) of
        (Inl e2, db1) \<Rightarrow> (Inl e2, w\<lparr>w_db := db1\<rparr>)
      | (Inr u, db1) \<Rightarrow> (Inl e, w\<lparr>w_db := db1\<rparr>))"

text \<open>The loop of \<open>syncLegislators\<close>: \<open>page = 1\<close>, \<open>totalSynced = 0\<close>, \<open>while (page <= 10)\<close>.\<close>

definition legislator_loop :: "source \<Rightarrow> nat \<Rightarrow> world \<Rightarrow> (error + nat) \<times> world" where
  "legislator_loop src now w =
     page_loop legislator_page_cap ''/people'' (get_people src) (upsert_legislator now) 1 0 w"

text \<open>\<open>syncLegislators\<close>: the loop and the metadata write in \<open>try\<close>, the \<open>catch\<close> block.\<close>

definition syncLegislators :: "source \<Rightarrow> nat \<Rightarrow> world \<Rightarrow> (error + nat) \<times> world" where
  "syncLegislators src now w =
     (case legislator_loop src now w of
        (Inr totalSynced, w1) \<Rightarrow>
          (Inr totalSynced, w1\<lparr>w_db := metadata_success now ''legislators'' totalSynced (w_db w1)\<rparr>)
      | (Inl e, w1) \<Rightarrow> catch_block now ''legislators'' e w1)"

text \<open>The loop of \<open>syncBills\<close>: \<open>while (page <= maxPages)\<close>.\<close>

definition bill_loop :: "platform \<Rightarrow> source \<Rightarrow> nat \<Rightarrow> world \<Rightarrow> (error + nat) \<times> world" where
  "bill_loop pf src now w =
     page_loop maxPages ''/bills'' (get_bills src) (sync_bill pf now) 1 0 w"

text \<open>\<open>syncBills\<close>, of the same shape.\<close>

definition syncBills :: "platform \<Rightarrow> source \<Rightarrow> nat \<Rightarrow> world \<Rightarrow> (error + nat) \<times> world" where
  "syncBills pf src now w =
     (case bill_loop pf src now w of
        (Inr totalSynced, w1) \<Rightarrow>
          (Inr totalSynced, w1\<lparr>w_db := metadata_success now ''bills'' totalSynced (w_db w1)\<rparr>)
      | (Inl e, w1) \<Rightarrow> catch_block now ''bills'' e w1)"

section \<open>The orchestrator\<close>

text \<open>
  \<open>runSync\<close> first tests the connection with \<open>SELECT NOW()\<close>; the storage of this model
  is always reachable, so the test passes and is not written out.

  How a run of \<open>runSync\<close> ends: the state it leaves, whether \<open>pool.end()\<close> was called, and
  the exit code of the process. \<open>process.exit(1)\<close> in the \<open>catch\<close> block ends the process
  at once: the \<open>finally\<close> block, which holds \<open>pool.end()\<close>, runs only when the \<open>try\<close> block
  completes.
\<close>

record outcome =
  o_world :: world
  o_pool_ended :: bool
  o_exit_code :: nat

definition process_exit :: "nat \<Rightarrow> world \<Rightarrow> outcome" where
  "process_exit code w = \<lparr>o_world = w, o_pool_ended = False, o_exit_code = code\<rparr>"

definition pool_end :: "world \<Rightarrow> outcome" where
  "pool_end w = \<lparr>o_world = w, o_pool_ended = True, o_exit_code = 0\<rparr>"

definition runSync :: "platform \<Rightarrow> source \<Rightarrow> nat \<Rightarrow> world \<Rightarrow> outcome" where
  "runSync pf src now w =
     (case syncLegislators src now w of
        (Inl e, w1) \<Rightarrow> process_exit 1 w1
      | (Inr n, w1) \<Rightarrow>
         (case syncBills pf src now w1 of
            (Inl e, w2) \<Rightarrow> process_exit 1 w2
          | (Inr m, w2) \<Rightarrow> pool_end w2))"

section \<open>Notions used to state the properties\<close>

text \<open>The nine stage values the classifiers can produce.\<close>

definition nine_stages :: "string list" where
  "nine_stages = [''introduced'', ''committee'', ''committee_approved'', ''floor_calendar'',
     ''passed_chamber'', ''enrolled'', ''signed'', ''vetoed'', ''became_law'']"

text \<open>None of the given tags is among the collected first tags of the actions.\<close>

definition recognises_none :: "string list \<Rightarrow> action list \<Rightarrow> bool" where
  "recognises_none tags acts = list_all (\<lambda>t. \<not> includes_tag (actionTypes acts) t) tags"

text \<open>The tags the specification lists as recognised, and the tags \<open>server.js\<close> tests.\<close>

definition listed_tags :: "string list" where
  "listed_tags = [''executive-signature'', ''executive-veto'', ''became-law'', ''passage'',
     ''committee-passage'', ''committee-referral'', ''reading-3'', ''introduction'']"

definition server_tags :: "string list" where
  "server_tags = [''executive-signature'', ''executive-veto'', ''became-law'', ''passage'',
     ''committee-passage'', ''referral-committee'', ''committee-referral'', ''reading-3'',
     ''introduction'', ''filing'']"

text \<open>
  Case-insensitive substring match, as the specification words it: some contiguous run
  of the description equals the keyword once letter case is ignored.
\<close>

definition occurs_ignoring_case :: "string \<Rightarrow> string \<Rightarrow> bool" where
  "occurs_ignoring_case w d = (\<exists>p u s. d = p @ u @ s \<and> toLowerCase u = toLowerCase w)"

definition mentions :: "string \<Rightarrow> string option \<Rightarrow> bool" where
  "mentions w d = (case d of None \<Rightarrow> False | Some s \<Rightarrow> occurs_ignoring_case w s)"

text \<open>Some action carries the tag anywhere in its classification.\<close>

definition some_action_tagged :: "string \<Rightarrow> action list \<Rightarrow> bool" where
  "some_action_tagged t acts = list_ex (classification_includes t) acts"

text \<open>Some action carries the tag as the first entry of its classification.\<close>

definition some_action_first_tagged :: "string \<Rightarrow> action list \<Rightarrow> bool" where
  "some_action_first_tagged t acts = list_ex (\<lambda>a. first_classification a = Some t) acts"

text \<open>
  The row persisted for a bill before it is synced: the stored row with the bill's
  \<open>openstates_id\<close> as the column holds it. Its stage is the bill's previously persisted
  stage, null when there is no such row; its id is the bill's id, which is the next serial
  id when there is no such row.
\<close>

definition stored_row :: "database \<Rightarrow> bill \<Rightarrow> bill_row option" where
  "stored_row db b =
     (case stored 255 (b_id b) of
        None \<Rightarrow> None
      | Some oid \<Rightarrow> find (\<lambda>r. r_openstates_id r = oid) (bills db))"

definition stored_stage :: "database \<Rightarrow> bill \<Rightarrow> string option" where
  "stored_stage db b = (case stored_row db b of None \<Rightarrow> None | Some r \<Rightarrow> r_stage r)"

definition stored_bill_id :: "database \<Rightarrow> bill \<Rightarrow> nat" where
  "stored_bill_id db b = (case stored_row db b of None \<Rightarrow> bills_seq db | Some r \<Rightarrow> r_id r)"

text \<open>A statement is accepted when it throws no error.\<close>

definition accepted :: "(error + 'a) \<times> database \<Rightarrow> bool" where
  "accepted res = (\<not> isl (fst res))"

text \<open>
  Consistency of a database the pipeline works on: every serial id in a table is below
  the table's counter, and every stored stage is a value that its \<open>VARCHAR(50)\<close> column
  can hold and is not the empty string (the pipeline stores only results of the
  classifier). It holds right after \<open>schema.sql\<close> and every statement of the pipeline
  keeps it.
\<close>

definition serials_fresh :: "database \<Rightarrow> bool" where
  "serials_fresh db =
     (list_all (\<lambda>r. l_id r < legislators_seq db) (legislators db)
      \<and> list_all (\<lambda>r. r_id r < bills_seq db) (bills db)
      \<and> list_all (\<lambda>r. ar_id r < bill_actions_seq db) (bill_actions db)
      \<and> list_all (\<lambda>r. h_id r < bill_history_seq db) (bill_history db)
      \<and> list_all (\<lambda>r. sp_id r < sponsorships_seq db) (sponsorships db))"

definition stage_value :: "string option \<Rightarrow> bool" where
  "stage_value v =
     (case v of None \<Rightarrow> True | Some s \<Rightarrow> s \<noteq> [] \<and> length s \<le> 50 \<and> CHR 0x00 \<notin> set s)"

definition stages_stored :: "database \<Rightarrow> bool" where
  "stages_stored db = list_all (\<lambda>r. stage_value (r_stage r)) (bills db)"

definition consistent :: "database \<Rightarrow> bool" where
  "consistent db = (serials_fresh db \<and> stages_stored db)"

text \<open>Every stored stage is one of the nine values of the classifier.\<close>

definition stages_classified :: "database \<Rightarrow> bool" where
  "stages_classified db = list_all (\<lambda>r. r_stage r \<in> Some ` set nine_stages) (bills db)"

text \<open>
  The page at which a loop with the given cap stops although no error is thrown: the page
  has zero records, or the source reports no further pages, or the page is the cap.
\<close>

definition stops_at :: "nat \<Rightarrow> (nat \<Rightarrow> error + 'a response) \<Rightarrow> nat \<Rightarrow> bool" where
  "stops_at cap fetch page =
     ((case fetch page of
         Inl e \<Rightarrow> False
       | Inr resp \<Rightarrow> length (rs_results resp) = 0 \<or> no_further_pages resp page)
      \<or> page = cap)"

definition pages :: "string \<Rightarrow> nat \<Rightarrow> (string \<times> nat) list" where
  "pages endpoint k = map (Pair endpoint) [1..<Suc k]"

text \<open>
  A loop run stopped at the first opportunity: it requested the pages 1 to \<open>k\<close> in order,
  no stop condition held at a page before \<open>k\<close>, and at page \<open>k\<close> a stop condition holds
  unless the run ended in a thrown error.
\<close>

definition stops_first ::
  "nat \<Rightarrow> string \<Rightarrow> (nat \<Rightarrow> error + 'a response) \<Rightarrow> world \<Rightarrow> (error + nat) \<times> world \<Rightarrow> bool" where
  "stops_first cap endpoint fetch w res =
     (\<exists>k\<in>{1..cap}.
        w_requests (snd res) = w_requests w @ pages endpoint k
        \<and> (\<forall>p\<in>{1..<k}. \<not> stops_at cap fetch p)
        \<and> (isl (fst res) \<or> stops_at cap fetch k))"

text \<open>The round in which a failed loop run threw: the run's world is the one that round left.\<close>

definition aborted_in_round ::
  "nat \<Rightarrow> string \<Rightarrow> (nat \<Rightarrow> error + 'a response) \<Rightarrow> ('a \<Rightarrow> unit stmt) \<Rightarrow> world \<Rightarrow> error \<Rightarrow> world \<Rightarrow> bool" where
  "aborted_in_round cap endpoint fetch body w e w1 =
     (\<exists>k n wk. 1 \<le> k \<and> k \<le> cap
        \<and> page_round endpoint fetch body k n wk = Leave (Inl e) w1
        \<and> w_requests w1 = w_requests w @ pages endpoint k)"

text \<open>The \<open>UPDATE\<close> of the \<open>catch\<close> blocks, on one metadata row.\<close>

definition marked_error :: "nat \<Rightarrow> string \<Rightarrow> error \<Rightarrow> metadata_row \<Rightarrow> metadata_row" where
  "marked_error now t e m =
     (if m_sync_type m = t
      then m\<lparr>m_last_sync_at := Some now, m_status := Some ''error'',
              m_error_message := Some (message e)\<rparr>
      else m)"

definition requests_to :: "string \<Rightarrow> world \<Rightarrow> nat list" where
  "requests_to endpoint w = map snd (filter (\<lambda>q. fst q = endpoint) (w_requests w))"

text \<open>
  Sample inputs. The sample platform knows the date of the sample records and writes an
  array as the driver does, in braces, the elements in double quotes with quotes and
  backslashes escaped.
\<close>

definition quoted :: "string \<Rightarrow> string" where
  "quoted s =
     CHR 0x22 # concat (map (\<lambda>c. if c = CHR 0x5C \<or> c = CHR 0x22 then [CHR 0x5C, c] else [c]) s)
       @ [CHR 0x22]"

fun comma_joined :: "string list \<Rightarrow> string" where
  "comma_joined [] = []"
| "comma_joined [s] = s"
| "comma_joined (s # t # ts) = s @ '','' @ comma_joined (t # ts)"

definition sample_platform :: platform where
  "sample_platform =
     \<lparr>date_in = (\<lambda>s. if s = ''2026-02-02'' then Some ''2026-02-02'' else None),
      array_text = (\<lambda>ts. ''{'' @ comma_joined (map quoted ts) @ ''}'')\<rparr>"

definition tagged :: "string list \<Rightarrow> string \<Rightarrow> action" where
  "tagged ts d = \<lparr>a_date = Some ''2026-02-02'', a_description = Some d,
     a_classification = Some ts, a_organization = None\<rparr>"

definition bill_of :: "action list \<Rightarrow> string option \<Rightarrow> bill" where
  "bill_of acts d = \<lparr>b_id = Some ''ocd-bill/1'', b_session = None, b_identifier = Some ''HB1001'',
     b_title = Some ''An Act'', b_description = None, b_classification = Some [''bill''],
     b_subject = None, b_from_organization = None,
     b_first_action_date = None, b_latest_action_date = Some ''2026-02-02'',
     b_latest_action_description = d, b_versions = None, b_actions = Some acts,
     b_sponsorships = None\<rparr>"

definition legislator_of :: "string \<Rightarrow> string option \<Rightarrow> string option \<Rightarrow> string option \<Rightarrow> legislator" where
  "legislator_of oid nm pty mail = \<lparr>lg_id = Some oid, lg_name = nm, lg_party = None,
     lg_current_party = pty, lg_current_role = None, lg_image = None, lg_email = mail,
     lg_phone = None\<rparr>"

definition fresh_world :: world where
  "fresh_world = \<lparr>w_db = initial_database, w_requests = []\<rparr>"

text \<open>
  Sample sources: one whose legislator endpoint times out; one that answers the first
  legislator page and fails on the second; one whose first legislator page holds a record
  without a name before a complete one; one that serves three legislator pages and a
  single bill page without pagination metadata; one that never runs out of pages; one
  whose pagination metadata hold \<open>max_page: null\<close>; one whose first bill page holds a
  bill with an action dated \<open>soon\<close> before a complete bill.
\<close>

definition failing_source :: source where
  "failing_source =
     \<lparr>get_people = (\<lambda>p. Inl (FetchError ''timeout of 10000ms exceeded'')),
      get_bills = (\<lambda>p. Inr \<lparr>rs_results = [], rs_pagination = None\<rparr>)\<rparr>"

definition flaky_source :: source where
  "flaky_source =
     \<lparr>get_people = (\<lambda>p. if p = 1
         then Inr \<lparr>rs_results = [legislator_of ''ocd-person/1'' (Some ''Ann Lee'') (Some ''Republican'') None],
                   rs_pagination = Some \<lparr>pg_max_page = Number 5\<rparr>\<rparr>
         else Inl (FetchError ''Request failed with status code 500'')),
      get_bills = (\<lambda>p. Inr \<lparr>rs_results = [], rs_pagination = None\<rparr>)\<rparr>"

definition nameless_source :: source where
  "nameless_source =
     \<lparr>get_people = (\<lambda>p. Inr
         \<lparr>rs_results = [legislator_of ''ocd-person/1'' (Some ''Ann Lee'') (Some ''Republican'') None,
                        legislator_of ''ocd-person/2'' None (Some ''Democratic'') None,
                        legislator_of ''ocd-person/3'' (Some ''Cy Poe'') (Some ''Republican'') None],
          rs_pagination = Some \<lparr>pg_max_page = Number 5\<rparr>\<rparr>),
      get_bills = (\<lambda>p. Inr \<lparr>rs_results = [], rs_pagination = None\<rparr>)\<rparr>"

definition endless_source :: source where
  "endless_source =
     \<lparr>get_people = (\<lambda>p. Inr
         \<lparr>rs_results = [legislator_of ''ocd-person/1'' (Some ''Ann Lee'') (Some ''Republican'') None],
          rs_pagination = Some \<lparr>pg_max_page = Number 1000\<rparr>\<rparr>),
      get_bills = (\<lambda>p. Inr
         \<lparr>rs_results = [bill_of [] None],
          rs_pagination = Some \<lparr>pg_max_page = Undefined\<rparr>\<rparr>)\<rparr>"

definition null_page_source :: source where
  "null_page_source =
     \<lparr>get_people = (\<lambda>p. Inr
         \<lparr>rs_results = [legislator_of ''ocd-person/1'' (Some ''Ann Lee'') (Some ''Republican'') None],
          rs_pagination = Some \<lparr>pg_max_page = Null\<rparr>\<rparr>),
      get_bills = (\<lambda>p. Inr
         \<lparr>rs_results = [bill_of [] None],
          rs_pagination = Some \<lparr>pg_max_page = Null\<rparr>\<rparr>)\<rparr>"

definition undated :: action where
  "undated = \<lparr>a_date = Some ''soon'', a_description = Some ''Referred'',
     a_classification = Some [''referral-committee''], a_organization = None\<rparr>"

definition second_bill :: bill where
  "second_bill = (bill_of [] None)\<lparr>b_id := Some ''ocd-bill/2'', b_identifier := Some ''SB7''\<rparr>"

definition undated_source :: source where
  "undated_source =
     \<lparr>get_people = (\<lambda>p. Inr
         \<lparr>rs_results = [legislator_of ''ocd-person/1'' (Some ''Ann Lee'') (Some ''Republican'') None],
          rs_pagination = None\<rparr>),
      get_bills = (\<lambda>p. Inr
         \<lparr>rs_results = [bill_of [tagged [''introduction''] ''Introduced'', undated] (Some ''Referred''),
                        second_bill],
          rs_pagination = Some \<lparr>pg_max_page = Number 2\<rparr>\<rparr>)\<rparr>"

definition sample_source :: source where
  "sample_source =
     \<lparr>get_people = (\<lambda>p. Inr
         \<lparr>rs_results = [legislator_of ''ocd-person/1'' (Some ''Ann Lee'') (Some ''Republican'') None],
          rs_pagination = Some \<lparr>pg_max_page = Number 3\<rparr>\<rparr>),
      get_bills = (\<lambda>p. Inr
         \<lparr>rs_results = [bill_of [tagged [''introduction''] ''Introduced''] (Some ''Introduced'')],
          rs_pagination = None\<rparr>)\<rparr>"

section \<open>The stage classifier: properties\<close>

lemma includes_tag_iff:
  "includes_tag (actionTypes acts) t \<longleftrightarrow> t \<noteq> [] \<and> (\<exists>a\<in>set acts. first_classification a = Some t)"
  by (force simp: includes_tag_def actionTypes_def truthy_def image_iff)

lemma starts_with_iff: "starts_with s w \<longleftrightarrow> (\<exists>t. s = w @ t)"
  by (induction s w rule: starts_with.induct) auto

lemma str_includes_iff: "str_includes s w \<longleftrightarrow> (\<exists>p t. s = p @ w @ t)"
proof (induction s)
  case Nil
  then show ?case by auto
next
  case (Cons c s)
  show ?case
  proof
    assume "str_includes (c # s) w"
    then consider "starts_with (c # s) w" | "str_includes s w" by auto
    then show "\<exists>p t. c # s = p @ w @ t"
    proof cases
      case 1
      then obtain t where "c # s = w @ t" by (auto simp: starts_with_iff)
      then have "c # s = [] @ w @ t" by simp
      then show ?thesis by blast
    next
      case 2
      with Cons obtain p t where "s = p @ w @ t" by auto
      then have "c # s = (c # p) @ w @ t" by simp
      then show ?thesis by blast
    qed
  next
    assume "\<exists>p t. c # s = p @ w @ t"
    then obtain p t where pt: "c # s = p @ w @ t" by auto
    show "str_includes (c # s) w"
    proof (cases p)
      case Nil
      with pt have "starts_with (c # s) w" by (auto simp: starts_with_iff)
      then show ?thesis by simp
    next
      case (Cons d p')
      with pt have "s = p' @ w @ t" by simp
      with Cons.IH have "str_includes s w" by blast
      then show ?thesis by simp
    qed
  qed
qed

text \<open>The code's test, lowering the description and searching it, is the match of the words.\<close>

lemma occurs_ignoring_case_iff:
  "occurs_ignoring_case w d \<longleftrightarrow> str_includes (toLowerCase d) (toLowerCase w)"
proof
  assume "occurs_ignoring_case w d"
  then obtain p u s where "d = p @ u @ s" "toLowerCase u = toLowerCase w"
    by (auto simp: occurs_ignoring_case_def)
  then have "toLowerCase d = toLowerCase p @ toLowerCase w @ toLowerCase s"
    by (simp add: toLowerCase_def)
  then show "str_includes (toLowerCase d) (toLowerCase w)"
    unfolding str_includes_iff by blast
next
  assume "str_includes (toLowerCase d) (toLowerCase w)"
  then obtain p t where pt: "map lower_char d = p @ map lower_char w @ t"
    by (auto simp: str_includes_iff toLowerCase_def)
  define u where "u = take (length w) (drop (length p) d)"
  have d: "d = take (length p) d @ u @ drop (length p + length w) d"
    unfolding u_def by (metis append_take_drop_id drop_drop add.commute)
  have "map lower_char u = take (length w) (drop (length p) (map lower_char d))"
    unfolding u_def by (simp add: take_map drop_map)
  also have "\<dots> = map lower_char w" by (simp add: pt)
  finally have "toLowerCase u = toLowerCase w" by (simp add: toLowerCase_def)
  with d show "occurs_ignoring_case w d"
    unfolding occurs_ignoring_case_def by blast
qed

lemma lower_keywords:
  "toLowerCase ''signed'' = ''signed''" "toLowerCase ''veto'' = ''veto''"
  "toLowerCase ''enrolled'' = ''enrolled''" "toLowerCase ''passed'' = ''passed''"
  "toLowerCase ''committee'' = ''committee''"
  by (simp_all add: toLowerCase_def lower_char_def)

lemma description_stage_mentions:
  "description_stage d =
     (if mentions ''signed'' d then ''signed''
      else if mentions ''veto'' d then ''vetoed''
      else if mentions ''enrolled'' d then ''enrolled''
      else if mentions ''passed'' d then ''passed_chamber''
      else if mentions ''committee'' d then ''committee''
      else ''introduced'')"
proof (cases d)
  case None
  then show ?thesis by (simp add: description_stage_def mentions_def truthy_def)
next
  case (Some s)
  show ?thesis
  proof (cases "s = []")
    case True
    with Some show ?thesis
      by (simp add: description_stage_def mentions_def truthy_def occurs_ignoring_case_iff
          lower_keywords toLowerCase_def)
  next
    case False
    with Some show ?thesis
      by (simp add: description_stage_def mentions_def truthy_def occurs_ignoring_case_iff
          lower_keywords Let_def)
  qed
qed

lemma determineBillStage_range: "determineBillStage b \<in> set nine_stages"
  by (simp add: determineBillStage_def nine_stages_def Let_def split: option.splits)

lemma determineBillStage_server_range: "determineBillStage_server b \<in> set nine_stages"
  by (simp add: determineBillStage_server_def description_stage_def nine_stages_def Let_def
      split: option.splits)

lemmas sample_defs = tagged_def bill_of_def legislator_of_def

lemmas classifier_defs = determineBillStage_def determineBillStage_server_def actionTypes_def
  includes_tag_def first_classification_def truthy_def passageActions_def
  classification_includes_def

text \<open>
  The servers' copy falls back on the bill's \<open>latest_action_description\<close> when the action
  list is non-empty and none of the ten tags it tests is among the collected first tags:
  the first of ``signed'', ``veto'', ``enrolled'', ``passed'', ``committee'' that occurs in
  it, letter case ignored, decides, and the result is \<open>introduced\<close> only if none occurs.
\<close>

lemma server_fallback_by_description:
  assumes "b_actions b = Some acts" and "acts \<noteq> []" and "recognises_none server_tags acts"
  shows "determineBillStage_server b =
     (if mentions ''signed'' (b_latest_action_description b) then ''signed''
      else if mentions ''veto'' (b_latest_action_description b) then ''vetoed''
      else if mentions ''enrolled'' (b_latest_action_description b) then ''enrolled''
      else if mentions ''passed'' (b_latest_action_description b) then ''passed_chamber''
      else if mentions ''committee'' (b_latest_action_description b) then ''committee''
      else ''introduced'')"
proof -
  have "determineBillStage_server b = description_stage (b_latest_action_description b)"
    using assms by (simp add: determineBillStage_server_def recognises_none_def server_tags_def)
  then show ?thesis by (simp only: description_stage_mentions)
qed

text \<open>
  The copy in \<open>sync-database.js\<close>, which the pipeline calls, has no such fallback: with
  none of the tags among the first tags it answers \<open>introduced\<close> whatever the description.
\<close>

lemma sync_copy_has_no_fallback:
  assumes "recognises_none server_tags acts"
  shows "determineBillStage (b\<lparr>b_actions := Some acts\<rparr>) = ''introduced''"
  using assms by (simp add: determineBillStage_def recognises_none_def server_tags_def)

text \<open>
  Claim C3 on the code: a bill whose only action has an empty classification and whose
  latest action reads ``Signed by Governor''. No tag is recognised, whichever list of tags
  is taken, and the description mentions ``signed'': the servers' copy answers \<open>signed\<close>,
  as the claim says, and the pipeline's copy answers \<open>introduced\<close>.
\<close>

theorem sync_classifier_lacks_description_fallback:
  "recognises_none listed_tags [tagged [] ''Signed by Governor'']
   \<and> recognises_none server_tags [tagged [] ''Signed by Governor'']
   \<and> mentions ''signed'' (a_description (tagged [] ''Signed by Governor''))
   \<and> mentions ''signed''
        (b_latest_action_description (bill_of [tagged [] ''Signed by Governor''] (Some ''Signed by Governor'')))
   \<and> determineBillStage_server (bill_of [tagged [] ''Signed by Governor''] (Some ''Signed by Governor''))
       = ''signed''
   \<and> determineBillStage (bill_of [tagged [] ''Signed by Governor''] (Some ''Signed by Governor''))
       = ''introduced''"
  by (simp add: recognises_none_def listed_tags_def server_tags_def sample_defs mentions_def
      occurs_ignoring_case_iff toLowerCase_def lower_char_def classifier_defs description_stage_def)

text \<open>
  Claim C4, as stated, on the bill whose only action carries the tags \<open>passage\<close> and
  \<open>executive-signature\<close> in this order: the signature tag is among the action's tags,
  and the classifier answers \<open>passed_chamber\<close>.
\<close>

theorem signature_tag_anywhere_counterexample:
  "some_action_tagged ''executive-signature'' [tagged [''passage'', ''executive-signature''] ''Approved'']
   \<and> determineBillStage (bill_of [tagged [''passage'', ''executive-signature''] ''Approved''] None)
       = ''passed_chamber''"
  by (simp add: some_action_tagged_def sample_defs classifier_defs)

text \<open>
  Claim C4, amended: for every action list in which some action has
  \<open>executive-signature\<close> as the first of its classification tags, the classifier (either
  copy) returns \<open>signed\<close>, whatever other tags are present.
\<close>

theorem signature_first_tag_signed:
  assumes "b_actions b = Some acts"
    and "some_action_first_tagged ''executive-signature'' acts"
  shows "determineBillStage b = ''signed'' \<and> determineBillStage_server b = ''signed''"
proof -
  from assms(2) have ex: "\<exists>a\<in>set acts. first_classification a = Some ''executive-signature''"
    by (simp add: some_action_first_tagged_def list_ex_iff)
  then have "includes_tag (actionTypes acts) ''executive-signature''"
    by (simp add: includes_tag_iff)
  moreover from ex have "acts \<noteq> []" by auto
  ultimately show ?thesis using assms(1)
    by (simp add: determineBillStage_def determineBillStage_server_def)
qed

text \<open>A veto, then a signature listed together with \<open>became-law\<close>.\<close>

theorem signature_first_tag_signed_witness:
  "some_action_first_tagged ''executive-signature''
     [tagged [''executive-veto''] ''Vetoed'', tagged [''executive-signature'', ''became-law''] ''Approved'']
   \<and> determineBillStage
       (bill_of [tagged [''executive-veto''] ''Vetoed'',
                 tagged [''executive-signature'', ''became-law''] ''Approved''] None) = ''signed''"
  using signature_first_tag_signed
      [of "bill_of [tagged [''executive-veto''] ''Vetoed'',
                    tagged [''executive-signature'', ''became-law''] ''Approved''] None"
          "[tagged [''executive-veto''] ''Vetoed'',
            tagged [''executive-signature'', ''became-law''] ''Approved'']"]
  by (simp add: some_action_first_tagged_def sample_defs first_classification_def)

text \<open>
  Claim C5, as stated, on the bill whose only action carries the tags \<open>reading-3\<close> and
  \<open>passage\<close> in this order: the list contains a passage tag and no higher-priority tag,
  exactly one action's classification includes \<open>passage\<close>, and the classifier answers
  \<open>floor_calendar\<close>.
\<close>

theorem passage_tag_anywhere_counterexample:
  "some_action_tagged ''passage'' [tagged [''reading-3'', ''passage''] ''Third reading, passed'']
   \<and> \<not> some_action_tagged ''executive-signature''
         [tagged [''reading-3'', ''passage''] ''Third reading, passed'']
   \<and> \<not> some_action_tagged ''executive-veto''
         [tagged [''reading-3'', ''passage''] ''Third reading, passed'']
   \<and> \<not> some_action_tagged ''became-law''
         [tagged [''reading-3'', ''passage''] ''Third reading, passed'']
   \<and> length (filter (classification_includes ''passage'')
         [tagged [''reading-3'', ''passage''] ''Third reading, passed'']) = 1
   \<and> determineBillStage (bill_of [tagged [''reading-3'', ''passage''] ''Third reading, passed''] None)
       = ''floor_calendar''"
  by (simp add: some_action_tagged_def sample_defs classifier_defs)

text \<open>
  Claim C5, amended: for every action list whose collected first tags contain \<open>passage\<close>
  and none of \<open>executive-signature\<close>, \<open>executive-veto\<close>, \<open>became-law\<close>: if exactly one
  action's classification includes \<open>passage\<close> the classifier returns \<open>passed_chamber\<close>, and
  if two or more do it returns \<open>enrolled\<close>. (At least one does, the action whose first tag
  it is.)
\<close>

theorem passage_count_decides:
  assumes "b_actions b = Some acts"
    and "includes_tag (actionTypes acts) ''passage''"
    and "\<not> includes_tag (actionTypes acts) ''executive-signature''"
    and "\<not> includes_tag (actionTypes acts) ''executive-veto''"
    and "\<not> includes_tag (actionTypes acts) ''became-law''"
  shows "(length (filter (classification_includes ''passage'') acts) = 1
            \<longrightarrow> determineBillStage b = ''passed_chamber'')
       \<and> (length (filter (classification_includes ''passage'') acts) \<ge> 2
            \<longrightarrow> determineBillStage b = ''enrolled'')
       \<and> length (filter (classification_includes ''passage'') acts) \<ge> 1"
proof -
  from assms(2) obtain a where a: "a \<in> set acts" "first_classification a = Some ''passage''"
    by (auto simp: includes_tag_iff)
  then have "classification_includes ''passage'' a"
    by (auto simp: first_classification_def classification_includes_def
        split: option.splits list.splits)
  with a(1) have "filter (classification_includes ''passage'') acts \<noteq> []"
    by (auto simp: filter_empty_conv)
  then have pos: "length (filter (classification_includes ''passage'') acts) \<ge> 1"
    by (cases "filter (classification_includes ''passage'') acts") auto
  from a(1) have "acts \<noteq> []" by auto
  then show ?thesis using assms pos
    by (simp add: determineBillStage_def passageActions_def)
qed

text \<open>One passage, then a second passage listed after \<open>reading-3\<close>.\<close>

theorem passage_count_decides_witness:
  "includes_tag (actionTypes [tagged [''passage''] ''Passed House'']) ''passage''
   \<and> determineBillStage (bill_of [tagged [''passage''] ''Passed House''] None) = ''passed_chamber''
   \<and> length (filter (classification_includes ''passage'')
        [tagged [''passage''] ''Passed House'', tagged [''reading-3'', ''passage''] ''Passed Senate'']) = 2
   \<and> determineBillStage (bill_of [tagged [''passage''] ''Passed House'',
        tagged [''reading-3'', ''passage''] ''Passed Senate''] None) = ''enrolled''"
  using passage_count_decides
      [of "bill_of [tagged [''passage''] ''Passed House''] None" "[tagged [''passage''] ''Passed House'']"]
    passage_count_decides
      [of "bill_of [tagged [''passage''] ''Passed House'',
             tagged [''reading-3'', ''passage''] ''Passed Senate''] None"
          "[tagged [''passage''] ''Passed House'', tagged [''reading-3'', ''passage''] ''Passed Senate'']"]
  by (simp add: sample_defs actionTypes_def includes_tag_def first_classification_def truthy_def
      classification_includes_def)

section \<open>Storage statements: how each one ends\<close>

lemma fresh_not_taken:
  "list_all (\<lambda>r. f r < (n::nat)) rows \<Longrightarrow> \<not> list_ex (\<lambda>r. f r = n) rows"
  by (auto simp: list_all_iff list_ex_iff)

lemma find_in_set: "find P xs = Some x \<Longrightarrow> x \<in> set xs"
  by (induction xs) (auto split: if_splits)

lemma upsert_bill_form:
  assumes "upsert_bill pf now b stage db = res"
  shows "(\<exists>e. res = (Inl e, db))
    \<or> (\<exists>e. res = (Inl e, db\<lparr>bills_seq := bills_seq db + 1\<rparr>))
    \<or> (\<exists>oid t row. list_all text_ok (bill_params pf b stage) \<and> bill_fits pf b stage
          \<and> stored 255 (b_id b) = Some oid \<and> b_title b = Some t
          \<and> find (\<lambda>r. r_openstates_id r = oid) (bills db) = Some row
          \<and> res = (Inr (r_id row, old_stage db (b_id b)),
                   db\<lparr>bills_seq := bills_seq db + 1,
                      bills := map (on_conflict_update_bill pf now oid t b stage) (bills db)\<rparr>))
    \<or> (\<exists>oid ident t. list_all text_ok (bill_params pf b stage) \<and> bill_fits pf b stage
          \<and> stored 255 (b_id b) = Some oid
          \<and> find (\<lambda>r. r_openstates_id r = oid) (bills db) = None
          \<and> \<not> list_ex (\<lambda>r. r_id r = bills_seq db) (bills db)
          \<and> bills_seq db \<le> max_serial
          \<and> res = (Inr (bills_seq db, old_stage db (b_id b)),
                   db\<lparr>bills_seq := bills_seq db + 1,
                      bills := bills db @ [bill_row_of pf now (bills_seq db) oid ident t b stage]\<rparr>))"
  using assms unfolding upsert_bill_def Let_def
  by (auto split: if_splits option.splits)

lemma upsert_legislator_form:
  assumes "upsert_legislator now lg db = res"
  shows "(\<exists>e. res = (Inl e, db))
    \<or> (\<exists>e. res = (Inl e, db\<lparr>legislators_seq := legislators_seq db + 1\<rparr>))
    \<or> (\<exists>oid nm. list_all text_ok (legislator_params lg) \<and> legislator_fits lg
          \<and> stored 255 (lg_id lg) = Some oid \<and> stored 255 (lg_name lg) = Some nm
          \<and> list_ex (\<lambda>r. l_openstates_id r = oid) (legislators db)
          \<and> res = (Inr (),
                   db\<lparr>legislators_seq := legislators_seq db + 1,
                      legislators := map (on_conflict_update_legislator now oid nm lg)
                                       (legislators db)\<rparr>))
    \<or> (\<exists>oid nm. list_all text_ok (legislator_params lg) \<and> legislator_fits lg
          \<and> stored 255 (lg_id lg) = Some oid \<and> stored 255 (lg_name lg) = Some nm
          \<and> \<not> list_ex (\<lambda>r. l_openstates_id r = oid) (legislators db)
          \<and> res = (Inr (),
                   db\<lparr>legislators_seq := legislators_seq db + 1,
                      legislators := legislators db @
                        [legislator_row_of now (legislators_seq db) oid nm lg]\<rparr>))"
  using assms unfolding upsert_legislator_def Let_def
  by (auto split: if_splits option.splits)

lemma insert_history_form:
  assumes "insert_history now bid stage status old db = res"
  shows "(\<exists>e. res = (Inl e, db))
    \<or> (\<exists>e. res = (Inl e, db\<lparr>bill_history_seq := bill_history_seq db + 1\<rparr>))
    \<or> res = (Inr (),
             db\<lparr>bill_history_seq := bill_history_seq db + 1,
                bill_history := bill_history db @
                  [history_row_of now (bill_history_seq db) bid stage status old]\<rparr>)"
  using assms unfolding insert_history_def Let_def
  by (auto split: if_splits)

lemma insert_action_form:
  assumes "insert_action pf bid a i db = res"
  shows "(\<exists>e. res = (Inl e, db))
    \<or> (\<exists>e. res = (Inl e, db\<lparr>bill_actions_seq := bill_actions_seq db + 1\<rparr>))
    \<or> res = (Inr (), db\<lparr>bill_actions_seq := bill_actions_seq db + 1\<rparr>)
    \<or> (\<exists>d ds. stored_date pf (a_date a) = Some d \<and> a_description a = Some ds
          \<and> \<not> list_ex (\<lambda>r. ar_id r = bill_actions_seq db) (bill_actions db)
          \<and> res = (Inr (),
                   db\<lparr>bill_actions_seq := bill_actions_seq db + 1,
                      bill_actions := bill_actions db @
                        [action_row_of (bill_actions_seq db) bid d ds a i]\<rparr>))"
  using assms unfolding insert_action_def Let_def
  by (auto split: if_splits option.splits)

lemma insert_sponsorship_form:
  assumes "insert_sponsorship bid sp db = res"
  shows "(\<exists>e. res = (Inl e, db))
    \<or> (\<exists>e. res = (Inl e, db\<lparr>sponsorships_seq := sponsorships_seq db + 1\<rparr>))
    \<or> res = (Inr (), db\<lparr>sponsorships_seq := sponsorships_seq db + 1\<rparr>)
    \<or> (\<exists>nm. res = (Inr (),
                   db\<lparr>sponsorships_seq := sponsorships_seq db + 1,
                      sponsorships := sponsorships db @
                        [sponsorship_row_of (sponsorships_seq db) bid nm sp db]\<rparr>))"
  using assms unfolding insert_sponsorship_def Let_def
  by (auto split: if_splits option.splits)

section \<open>Storage statements: what each one leaves alone\<close>

lemma upsert_legislator_frame:
  "bills (snd (upsert_legislator now lg db)) = bills db"
  "bill_history (snd (upsert_legislator now lg db)) = bill_history db"
  "sync_metadata (snd (upsert_legislator now lg db)) = sync_metadata db"
  using upsert_legislator_form[OF refl, of now lg db] by auto

lemma upsert_bill_frame:
  "bill_history (snd (upsert_bill pf now b stage db)) = bill_history db"
  "bill_history_seq (snd (upsert_bill pf now b stage db)) = bill_history_seq db"
  "sync_metadata (snd (upsert_bill pf now b stage db)) = sync_metadata db"
  using upsert_bill_form[OF refl, of pf now b stage db] by auto

lemma insert_history_frame:
  "bills (snd (insert_history now bid stage status old db)) = bills db"
  "sync_metadata (snd (insert_history now bid stage status old db)) = sync_metadata db"
  using insert_history_form[OF refl, of now bid stage status old db] by auto

lemma insert_action_frame:
  "bills (snd (insert_action pf bid a i db)) = bills db"
  "bill_history (snd (insert_action pf bid a i db)) = bill_history db"
  "sync_metadata (snd (insert_action pf bid a i db)) = sync_metadata db"
  using insert_action_form[OF refl, of pf bid a i db] by auto

lemma insert_sponsorship_frame:
  "bills (snd (insert_sponsorship bid sp db)) = bills db"
  "bill_history (snd (insert_sponsorship bid sp db)) = bill_history db"
  "sync_metadata (snd (insert_sponsorship bid sp db)) = sync_metadata db"
  using insert_sponsorship_form[OF refl, of bid sp db] by auto

lemma metadata_frame:
  "bills (snd (metadata_error now t msg db)) = bills db"
  "bills (metadata_success now t n db) = bills db"
  by (simp_all add: metadata_error_def metadata_success_def)

text \<open>A loop, or a sequence, keeps whatever each of its steps keeps.\<close>

lemma for_each_keeps:
  assumes "\<And>x db. P db \<Longrightarrow> P (snd (f x db))"
  shows "P db \<Longrightarrow> P (snd (for_each f xs db))"
proof (induction xs arbitrary: db)
  case Nil
  then show ?case by simp
next
  case (Cons x xs)
  from assms[OF Cons.prems, of x] Cons.IH[of "snd (f x db)"]
  show ?case by (cases "f x db") (auto split: sum.splits)
qed

lemma sync_actions_keeps:
  assumes "\<And>a i db. P db \<Longrightarrow> P (snd (insert_action pf bid a i db))"
  shows "P db \<Longrightarrow> P (snd (sync_actions pf bid acts i db))"
proof (induction acts arbitrary: i db)
  case Nil
  then show ?case by simp
next
  case (Cons a acts)
  from assms[OF Cons.prems, of a i] Cons.IH[of "snd (insert_action pf bid a i db)" "i + 1"]
  show ?case by (cases "insert_action pf bid a i db") (auto split: sum.splits)
qed

lemma and_then_keeps:
  assumes "\<And>db. P db \<Longrightarrow> P (snd (s db))" and "\<And>db. P db \<Longrightarrow> P (snd (t db))" and "P db"
  shows "P (snd (and_then s t db))"
proof (cases "s db")
  case (Pair r db1)
  with assms(1)[OF assms(3)] have "P db1" by simp
  with assms(2)[of db1] Pair show ?thesis
    by (cases r) (simp_all add: and_then_def)
qed

lemma sync_bill_keeps:
  assumes up: "\<And>db. P db \<Longrightarrow> P (snd (upsert_bill pf now b (determineBillStage b) db))"
    and hi: "\<And>bid st old db. P db \<Longrightarrow>
               P (snd (insert_history now bid (determineBillStage b) st old db))"
    and ac: "\<And>bid a i db. P db \<Longrightarrow> P (snd (insert_action pf bid a i db))"
    and sp: "\<And>bid s db. P db \<Longrightarrow> P (snd (insert_sponsorship bid s db))"
    and P: "P db"
  shows "P (snd (sync_bill pf now b db))"
proof (cases "upsert_bill pf now b (determineBillStage b) db")
  case (Pair r db1)
  with up[OF P] have P1: "P db1" by simp
  show ?thesis
  proof (cases r)
    case (Inl e)
    with Pair P1 show ?thesis by (simp add: sync_bill_def)
  next
    case (Inr res)
    obtain bid old where res: "res = (bid, old)" by (cases res)
    have track: "P (snd (track_stage_change now b bid (determineBillStage b) old d))" if "P d" for d
      using hi[OF that] that by (simp add: track_stage_change_def)
    have acts: "P (snd (sync_bill_actions pf b bid d))" if "P d" for d
      using sync_actions_keeps[of P pf bid, OF ac that] that
      by (simp add: sync_bill_actions_def split: option.splits)
    have spons: "P (snd (sync_bill_sponsorships b bid d))" if "P d" for d
      using for_each_keeps[of P "insert_sponsorship bid", OF sp that] that
      by (simp add: sync_bill_sponsorships_def split: option.splits)
    have "P (snd (and_then (track_stage_change now b bid (determineBillStage b) old)
        (and_then (sync_bill_actions pf b bid) (sync_bill_sponsorships b bid)) db1))"
      by (intro and_then_keeps[of P] track acts spons P1)
    with Pair Inr res show ?thesis by (simp add: sync_bill_def)
  qed
qed

lemma sync_bill_frame:
  "sync_metadata (snd (sync_bill pf now b db)) = sync_metadata db"
  using sync_bill_keeps[of "\<lambda>d. sync_metadata d = sync_metadata db" pf now b db]
  by (simp add: upsert_bill_frame insert_history_frame insert_action_frame insert_sponsorship_frame)

section \<open>Consistency is kept\<close>

lemma serials_upsert_legislator:
  "serials_fresh db \<Longrightarrow> serials_fresh (snd (upsert_legislator now lg db))"
  using upsert_legislator_form[OF refl, of now lg db]
  apply (elim disjE exE conjE)
  apply (simp_all add: serials_fresh_def list_all_iff on_conflict_update_legislator_def
      legislator_row_of_def)
  apply (auto intro: less_SucI)
  done

lemma serials_upsert_bill:
  "serials_fresh db \<Longrightarrow> serials_fresh (snd (upsert_bill pf now b stage db))"
  using upsert_bill_form[OF refl, of pf now b stage db]
  apply (elim disjE exE conjE)
  apply (simp_all add: serials_fresh_def list_all_iff on_conflict_update_bill_def bill_row_of_def)
  apply (auto intro: less_SucI)
  done

lemma serials_insert_history:
  "serials_fresh db \<Longrightarrow> serials_fresh (snd (insert_history now bid stage st old db))"
  using insert_history_form[OF refl, of now bid stage st old db]
  apply (elim disjE exE conjE)
  apply (simp_all add: serials_fresh_def list_all_iff history_row_of_def)
  apply (auto intro: less_SucI)
  done

lemma serials_insert_action:
  "serials_fresh db \<Longrightarrow> serials_fresh (snd (insert_action pf bid a i db))"
  using insert_action_form[OF refl, of pf bid a i db]
  apply (elim disjE exE conjE)
  apply (simp_all add: serials_fresh_def list_all_iff action_row_of_def)
  apply (auto intro: less_SucI)
  done

lemma serials_insert_sponsorship:
  "serials_fresh db \<Longrightarrow> serials_fresh (snd (insert_sponsorship bid s db))"
  using insert_sponsorship_form[OF refl, of bid s db]
  apply (elim disjE exE conjE)
  apply (simp_all add: serials_fresh_def list_all_iff sponsorship_row_of_def)
  apply (auto intro: less_SucI)
  done

lemma serials_sync_bill:
  "serials_fresh db \<Longrightarrow> serials_fresh (snd (sync_bill pf now b db))"
  by (rule sync_bill_keeps[of serials_fresh])
     (simp_all add: serials_upsert_bill serials_insert_history serials_insert_action
        serials_insert_sponsorship)

text \<open>Results of the classifier are values the stage column holds as they are.\<close>

lemma determineBillStage_stored:
  "take 50 (determineBillStage b) = determineBillStage b"
  "length (determineBillStage b) \<le> 50"
  "CHR 0x00 \<notin> set (determineBillStage b)"
  "determineBillStage b \<noteq> []"
  using determineBillStage_range[of b] by (auto simp: nine_stages_def)

lemma stages_upsert_bill:
  "stage \<in> set nine_stages \<Longrightarrow> stages_classified db \<Longrightarrow>
     stages_classified (snd (upsert_bill pf now b stage db))"
  using upsert_bill_form[OF refl, of pf now b stage db]
  apply (elim disjE exE conjE)
  apply (simp_all add: stages_classified_def list_all_iff stored_def on_conflict_update_bill_def
      bill_row_of_def)
  apply (auto simp: nine_stages_def)
  done

lemma stages_frame: "bills db' = bills db \<Longrightarrow> stages_classified db' = stages_classified db"
  by (simp add: stages_classified_def)

lemma stages_sync_bill:
  "stages_classified db \<Longrightarrow> stages_classified (snd (sync_bill pf now b db))"
  by (rule sync_bill_keeps[of stages_classified])
     (simp_all add: stages_upsert_bill determineBillStage_range
        stages_frame[OF insert_history_frame(1)] stages_frame[OF insert_action_frame(1)]
        stages_frame[OF insert_sponsorship_frame(1)])

lemma stages_upsert_legislator:
  "stages_classified db \<Longrightarrow> stages_classified (snd (upsert_legislator now lg db))"
  by (simp add: stages_frame[OF upsert_legislator_frame(1)])

lemma stages_metadata:
  "stages_classified (snd (metadata_error now t msg db)) = stages_classified db"
  "stages_classified (metadata_success now t n db) = stages_classified db"
  by (simp_all add: stages_classified_def metadata_frame)

lemma stage_value_stored:
  "stage \<noteq> [] \<Longrightarrow> text_ok (Some stage) \<Longrightarrow> stage_value (stored 50 (Some stage))"
  by (auto simp: stage_value_def stored_def text_ok_def dest: in_set_takeD)

lemma stored_upsert_bill:
  assumes "stage \<noteq> []" and "stages_stored db"
  shows "stages_stored (snd (upsert_bill pf now b stage db))"
proof -
  have "stage_value (stored 50 (Some stage))" if "list_all text_ok (bill_params pf b stage)"
    using that assms(1) by (intro stage_value_stored) (simp_all add: bill_params_def)
  with assms(2) upsert_bill_form[OF refl, of pf now b stage db] show ?thesis
    apply (elim disjE exE conjE)
    apply (simp_all add: stages_stored_def list_all_iff on_conflict_update_bill_def bill_row_of_def)
    apply auto
    done
qed

lemma stored_frame: "bills db' = bills db \<Longrightarrow> stages_stored db' = stages_stored db"
  by (simp add: stages_stored_def)

lemma stored_sync_bill:
  "stages_stored db \<Longrightarrow> stages_stored (snd (sync_bill pf now b db))"
  by (rule sync_bill_keeps[of stages_stored])
     (simp_all add: stored_upsert_bill determineBillStage_stored
        stored_frame[OF insert_history_frame(1)] stored_frame[OF insert_action_frame(1)]
        stored_frame[OF insert_sponsorship_frame(1)])

lemma consistent_initial: "consistent initial_database"
  by (simp add: consistent_def serials_fresh_def stages_stored_def initial_database_def)

lemma consistent_sync_bill: "consistent db \<Longrightarrow> consistent (snd (sync_bill pf now b db))"
  by (simp add: consistent_def serials_sync_bill stored_sync_bill)

lemma consistent_upsert_legislator:
  "consistent db \<Longrightarrow> consistent (snd (upsert_legislator now lg db))"
  by (simp add: consistent_def serials_upsert_legislator stored_frame[OF upsert_legislator_frame(1)])

lemma consistent_metadata:
  "consistent (snd (metadata_error now t msg db)) = consistent db"
  "consistent (metadata_success now t n db) = consistent db"
  by (simp_all add: consistent_def serials_fresh_def stages_stored_def metadata_error_def
      metadata_success_def)

lemmas column_defs = text_ok_def fits_def stored_def date_ok_def stored_date_def max_serial_def
  invalid_text_def invalid_date_def invalid_json_def too_long_def exhausted_def null_value_def
  duplicate_key_def

lemmas statement_defs = upsert_legislator_def upsert_bill_def insert_history_def insert_action_def
  insert_sponsorship_def sync_bill_def and_then_def track_stage_change_def sync_bill_actions_def
  sync_bill_sponsorships_def on_conflict_update_legislator_def on_conflict_update_bill_def
  legislator_row_of_def bill_row_of_def history_row_of_def action_row_of_def
  sponsorship_row_of_def
  initial_database_def session_id_def js_or_def or_null_def legislator_party_def
  legislator_chamber_def legislator_district_def find_legislator_id_def legislator_params_def
  legislator_fits_def bill_params_def bill_fits_def subject_ok_def bill_chamber_def
  full_text_url_def bill_classification_def bill_subject_def old_stage_def
  action_classification_def action_chamber_def metadata_error_def metadata_success_def
  sample_platform_def quoted_def column_defs

section \<open>Bill sync: history rows\<close>

lemma stored_short: "length s \<le> n \<Longrightarrow> stored n (Some s) = Some s"
  by (simp add: stored_def)

text \<open>What an accepted bill upsert has checked and what it yields.\<close>

lemma upsert_bill_accepted:
  assumes acc: "accepted (upsert_bill pf now b stage db)"
    and oid: "b_id b = Some oid" "length oid \<le> 255"
  shows "fst (upsert_bill pf now b stage db) = Inr (stored_bill_id db b, stored_stage db b)"
    and "text_ok (b_latest_action_description b)"
    and "fits 100 (b_latest_action_description b)"
proof -
  have key: "stored 255 (b_id b) = Some oid"
    using oid by (simp add: stored_def)
  have old: "old_stage db (b_id b) = stored_stage db b"
    using oid key by (simp add: old_stage_def stored_stage_def stored_row_def)
  from upsert_bill_form[OF refl, of pf now b stage db] acc key old
  show "fst (upsert_bill pf now b stage db) = Inr (stored_bill_id db b, stored_stage db b)"
    apply (elim disjE exE conjE)
    apply (simp_all add: accepted_def stored_bill_id_def stored_row_def)
    done
  from upsert_bill_form[OF refl, of pf now b stage db] acc
  have "list_all text_ok (bill_params pf b stage) \<and> bill_fits pf b stage"
    apply (elim disjE exE conjE)
    apply (simp_all add: accepted_def)
    done
  then show "text_ok (b_latest_action_description b)" "fits 100 (b_latest_action_description b)"
    by (simp_all add: bill_params_def bill_fits_def)
qed

text \<open>
  A latest action description that does not fit \<open>current_status VARCHAR(100)\<close> makes the
  bill upsert throw, after the serial id is drawn: nothing is written for the bill, and
  \<open>sync_bill\<close> ends with this error (\<open>sync_bill_upsert_error\<close>).
\<close>

lemma long_description_rejected:
  assumes "list_all text_ok (bill_params pf b stage)" and "subject_ok b"
    and "date_ok pf (b_first_action_date b)" and "date_ok pf (b_latest_action_date b)"
    and "bills_seq db \<le> max_serial"
    and "\<not> fits 100 (b_latest_action_description b)"
  shows "upsert_bill pf now b stage db = (Inl too_long, db\<lparr>bills_seq := bills_seq db + 1\<rparr>)"
  using assms by (simp add: upsert_bill_def Let_def bill_fits_def)

lemma stored_stage_value:
  assumes "stages_stored db"
  shows "stage_value (stored_stage db b)"
proof (cases "stored_row db b")
  case None
  then show ?thesis by (simp add: stored_stage_def stage_value_def)
next
  case (Some r)
  then have "r \<in> set (bills db)"
    by (auto simp: stored_row_def split: option.splits dest: find_in_set)
  with assms Some show ?thesis
    by (auto simp: stages_stored_def list_all_iff stored_stage_def)
qed

lemma stage_value_column:
  assumes "stage_value v"
  shows "truthy v \<longleftrightarrow> v \<noteq> None" and "text_ok v" and "fits 50 v" and "stored 50 v = v"
  using assms
  by (cases v; simp add: stage_value_def truthy_def text_ok_def fits_def stored_def)+

lemma insert_history_appends:
  assumes "list_all text_ok [Some stage, status, old]"
    and "bill_history_seq db \<le> max_serial"
    and "fits 50 (Some stage)" "fits 100 status" "fits 50 old"
    and "list_all (\<lambda>r. h_id r < bill_history_seq db) (bill_history db)"
  shows "insert_history now bid stage status old db =
     (Inr (), db\<lparr>bill_history_seq := bill_history_seq db + 1,
                 bill_history := bill_history db @
                   [history_row_of now (bill_history_seq db) bid stage status old]\<rparr>)"
  using assms(1-5) fresh_not_taken[OF assms(6)]
  by (simp add: insert_history_def Let_def)

lemma after_history_frame:
  "bill_history (snd (and_then (sync_bill_actions pf b bid) (sync_bill_sponsorships b bid) db))
     = bill_history db"
proof -
  have acts: "bill_history (snd (sync_bill_actions pf b bid d)) = bill_history db"
    if "bill_history d = bill_history db" for d
    using sync_actions_keeps[of "\<lambda>x. bill_history x = bill_history db" pf bid d] that
    by (simp add: sync_bill_actions_def insert_action_frame split: option.splits)
  have spons: "bill_history (snd (sync_bill_sponsorships b bid d)) = bill_history db"
    if "bill_history d = bill_history db" for d
    using for_each_keeps[of "\<lambda>x. bill_history x = bill_history db" "insert_sponsorship bid" d] that
    by (simp add: sync_bill_sponsorships_def insert_sponsorship_frame split: option.splits)
  show ?thesis
    by (rule and_then_keeps[of "\<lambda>x. bill_history x = bill_history db"]) (simp_all add: acts spons)
qed

lemma and_then_returned: "s db = (Inr (), db1) \<Longrightarrow> and_then s t db = t db1"
  by (simp add: and_then_def)

lemma sync_bill_history:
  assumes up: "upsert_bill pf now b (determineBillStage b) db = (Inr (bid, old), db1)"
    and old: "stage_value old"
    and status: "text_ok (b_latest_action_description b)" "fits 100 (b_latest_action_description b)"
    and room: "bill_history_seq db \<le> max_serial"
    and fresh: "list_all (\<lambda>r. h_id r < bill_history_seq db) (bill_history db)"
  shows "bill_history (snd (sync_bill pf now b db)) = bill_history db @
     (if old \<noteq> None \<and> old \<noteq> Some (determineBillStage b)
      then [\<lparr>h_id = bill_history_seq db, h_bill_id = bid, h_stage = determineBillStage b,
              h_status = stored 100 (b_latest_action_description b), h_changed_at = now,
              h_previous_stage = old\<rparr>]
      else [])"
proof -
  let ?stage = "determineBillStage b"
  have h1: "bill_history db1 = bill_history db" "bill_history_seq db1 = bill_history_seq db"
    using upsert_bill_frame(1,2)[of pf now b ?stage db] up by simp_all
  have stage: "text_ok (Some ?stage)" "fits 50 (Some ?stage)"
    using determineBillStage_stored[of b] by (simp_all add: text_ok_def fits_def)
  define step where "step = track_stage_change now b bid ?stage old db1"
  have "fst step = Inr () \<and> bill_history (snd step) = bill_history db @
     (if old \<noteq> None \<and> old \<noteq> Some ?stage
      then [\<lparr>h_id = bill_history_seq db, h_bill_id = bid, h_stage = ?stage,
              h_status = stored 100 (b_latest_action_description b), h_changed_at = now,
              h_previous_stage = old\<rparr>]
      else [])"
  proof (cases "old \<noteq> None \<and> old \<noteq> Some ?stage")
    case True
    have "insert_history now bid ?stage (b_latest_action_description b) old db1 =
       (Inr (), db1\<lparr>bill_history_seq := bill_history_seq db1 + 1,
                 bill_history := bill_history db1 @
                   [history_row_of now (bill_history_seq db1) bid ?stage
                      (b_latest_action_description b) old]\<rparr>)"
      using stage status stage_value_column(2,3)[OF old] room fresh h1
      by (intro insert_history_appends) simp_all
    with True stage_value_column(1,4)[OF old] h1 determineBillStage_stored(1)[of b]
    show ?thesis
      by (simp add: step_def track_stage_change_def history_row_of_def)
  next
    case False
    then have "\<not> (truthy old \<and> old \<noteq> Some ?stage)"
      using stage_value_column(1)[OF old] by blast
    with False h1 show ?thesis
      by (simp add: step_def track_stage_change_def)
  qed
  then obtain db2 where track: "track_stage_change now b bid ?stage old db1 = (Inr (), db2)"
    and hist: "bill_history db2 = bill_history db @
     (if old \<noteq> None \<and> old \<noteq> Some ?stage
      then [\<lparr>h_id = bill_history_seq db, h_bill_id = bid, h_stage = ?stage,
              h_status = stored 100 (b_latest_action_description b), h_changed_at = now,
              h_previous_stage = old\<rparr>]
      else [])"
    unfolding step_def by (cases "track_stage_change now b bid ?stage old db1") auto
  have "sync_bill pf now b db =
     and_then (sync_bill_actions pf b bid) (sync_bill_sponsorships b bid) db2"
    using up and_then_returned[of "track_stage_change now b bid ?stage old" db1 db2, OF track]
    by (simp add: sync_bill_def)
  with after_history_frame[of pf b bid db2] hist show ?thesis by simp
qed

text \<open>
  Claim C1: for every bill that Bill Sync processes (on a consistent database its
  upsert is accepted, and the serial ids of the history table are not used up), the
  history table grows by exactly one row if the stage stored for the bill before the upsert
  is non-null and differs from the newly computed stage, and by no row otherwise; the row
  records the new stage, the bill's latest action description as the status column holds
  it, and the previous stage. So a pass that computes the stored stage, and the first
  observation of a bill (no stored row, previous stage null), insert no history row.
  The status column is a \<open>VARCHAR(100)\<close>: of an accepted description it holds all but
  the spaces beyond its first 100 characters, so a description of at most 100 characters
  is recorded as it is (\<open>stored_short\<close>). Consistency holds for the database of \<open>schema.sql\<close> and after
  every run of the pipeline (\<open>consistent_initial\<close>, \<open>consistent_sync_bill\<close>,
  \<open>consistent_runSync\<close>).
\<close>

theorem history_row_iff_stage_changed:
  assumes "consistent db"
    and "b_id b = Some oid" and "length oid \<le> 255"
    and "accepted (upsert_bill pf now b (determineBillStage b) db)"
    and "bill_history_seq db \<le> max_serial"
  shows "bill_history (snd (sync_bill pf now b db)) = bill_history db @
     (if stored_stage db b \<noteq> None \<and> stored_stage db b \<noteq> Some (determineBillStage b)
      then [\<lparr>h_id = bill_history_seq db, h_bill_id = stored_bill_id db b,
              h_stage = determineBillStage b,
              h_status = stored 100 (b_latest_action_description b),
              h_changed_at = now, h_previous_stage = stored_stage db b\<rparr>]
      else [])"
proof -
  from assms(1) have fresh: "list_all (\<lambda>r. h_id r < bill_history_seq db) (bill_history db)"
    and sv: "stage_value (stored_stage db b)"
    by (simp_all add: consistent_def serials_fresh_def stored_stage_value)
  obtain db1 where "upsert_bill pf now b (determineBillStage b) db
      = (Inr (stored_bill_id db b, stored_stage db b), db1)"
    using upsert_bill_accepted(1)[OF assms(4,2,3)]
    by (cases "upsert_bill pf now b (determineBillStage b) db") auto
  from sync_bill_history[OF this sv upsert_bill_accepted(2,3)[OF assms(4,2,3)] assms(5) fresh]
  show "bill_history (snd (sync_bill pf now b db)) = bill_history db @
     (if stored_stage db b \<noteq> None \<and> stored_stage db b \<noteq> Some (determineBillStage b)
      then [\<lparr>h_id = bill_history_seq db, h_bill_id = stored_bill_id db b,
              h_stage = determineBillStage b,
              h_status = stored 100 (b_latest_action_description b),
              h_changed_at = now, h_previous_stage = stored_stage db b\<rparr>]
      else [])" .
qed

text \<open>
  A bill first seen with an introduction, then synced again with a committee referral:
  the first pass inserts no history row, the second the one row \<open>introduced\<close> to
  \<open>committee\<close>.
\<close>

theorem history_row_iff_stage_changed_witness:
  "consistent initial_database
   \<and> accepted (upsert_bill sample_platform 1
        (bill_of [tagged [''introduction''] ''Introduced''] (Some ''Introduced''))
        ''introduced'' initial_database)
   \<and> bill_history (snd (sync_bill sample_platform 1
        (bill_of [tagged [''introduction''] ''Introduced''] (Some ''Introduced''))
        initial_database)) = []
   \<and> bill_history (snd (sync_bill sample_platform 2
        (bill_of [tagged [''introduction''] ''Introduced'', tagged [''referral-committee''] ''Referred'']
           (Some ''Referred''))
        (snd (sync_bill sample_platform 1
           (bill_of [tagged [''introduction''] ''Introduced''] (Some ''Introduced''))
           initial_database))))
     = [\<lparr>h_id = 1, h_bill_id = 1, h_stage = ''committee'', h_status = Some ''Referred'',
          h_changed_at = 2, h_previous_stage = Some ''introduced''\<rparr>]"
  using history_row_iff_stage_changed
      [of initial_database "bill_of [tagged [''introduction''] ''Introduced''] (Some ''Introduced'')"
          "''ocd-bill/1''" sample_platform 1]
    history_row_iff_stage_changed
      [of "snd (sync_bill sample_platform 1
             (bill_of [tagged [''introduction''] ''Introduced''] (Some ''Introduced''))
             initial_database)"
          "bill_of [tagged [''introduction''] ''Introduced'', tagged [''referral-committee''] ''Referred'']
             (Some ''Referred'')"
          "''ocd-bill/1''" sample_platform 2]
    consistent_sync_bill[OF consistent_initial, of sample_platform
      1 "bill_of [tagged [''introduction''] ''Introduced''] (Some ''Introduced'')"]
    consistent_initial
  by (simp add: accepted_def stored_stage_def stored_bill_id_def stored_row_def statement_defs
      sample_defs classifier_defs Let_def)

section \<open>Bill sync: action rows\<close>

text \<open>
  Claim C2 on the code: the same bill, with its single action, synced twice into the
  database of \<open>schema.sql\<close>. \<open>ON CONFLICT DO NOTHING\<close> finds no conflict, since
  \<open>bill_actions\<close> has no unique key besides its serial id, and the action is recorded
  twice for the same bill, date, description and position.
\<close>

theorem resynced_action_is_duplicated:
  "map (\<lambda>r. (ar_bill_id r, ar_date r, ar_description r, ar_order_index r))
     (bill_actions (snd (sync_bill sample_platform 2
        (bill_of [tagged [''introduction''] ''Introduced''] (Some ''Introduced''))
        (snd (sync_bill sample_platform 1
           (bill_of [tagged [''introduction''] ''Introduced''] (Some ''Introduced''))
           initial_database)))))
   = [(1, ''2026-02-02'', ''Introduced'', 0), (1, ''2026-02-02'', ''Introduced'', 0)]"
  by (simp add: statement_defs sample_defs classifier_defs Let_def)

section \<open>Legislator sync: the upsert\<close>

lemma upsert_legislator_new:
  assumes "list_all text_ok (legislator_params lg)" and "legislator_fits lg"
    and "legislators_seq db \<le> max_serial"
    and "lg_id lg = Some oid" and "lg_name lg = Some nm"
    and "\<not> list_ex (\<lambda>r. l_openstates_id r = take 255 oid) (legislators db)"
    and "\<not> list_ex (\<lambda>r. l_id r = legislators_seq db) (legislators db)"
  shows "upsert_legislator now lg db =
     (Inr (), db\<lparr>legislators_seq := legislators_seq db + 1,
        legislators := legislators db @
          [legislator_row_of now (legislators_seq db) (take 255 oid) (take 255 nm) lg]\<rparr>)"
  using assms by (simp add: upsert_legislator_def Let_def stored_def)

lemma upsert_legislator_conflict:
  assumes "list_all text_ok (legislator_params lg)" and "legislator_fits lg"
    and "legislators_seq db \<le> max_serial"
    and "lg_id lg = Some oid" and "lg_name lg = Some nm"
    and "list_ex (\<lambda>r. l_openstates_id r = take 255 oid) (legislators db)"
  shows "upsert_legislator now lg db =
     (Inr (), db\<lparr>legislators_seq := legislators_seq db + 1,
        legislators := map (on_conflict_update_legislator now (take 255 oid) (take 255 nm) lg)
                         (legislators db)\<rparr>)"
  using assms by (simp add: upsert_legislator_def Let_def stored_def)

lemma on_conflict_keeps_key:
  "l_openstates_id (on_conflict_update_legislator now oid nm lg r) = l_openstates_id r"
  by (simp add: on_conflict_update_legislator_def)

text \<open>
  Claim C6: on a database with fresh serial ids whose legislators have distinct external
  identifiers, syncing a legislator whose values the columns take (identifier and name
  present, no \<open>NUL\<close> character, nothing beyond a \<open>VARCHAR\<close> length but spaces, a serial
  id left) is accepted and keeps the identifiers distinct. The key is the identifier as
  its \<open>VARCHAR(255)\<close> column holds it (the identifier itself when it has at most 255
  characters). If the key was not stored, one row is appended for it. If it was, no row
  is added: the row with this key gets the new name, party, chamber, district and update
  timestamp, while its id, \<open>openstates_id\<close>, email, phone, image URL and creation time,
  and every other row, stay as they were.
\<close>

theorem legislator_upsert_by_external_id:
  fixes now :: nat and lg :: legislator and db :: database
  defines "before \<equiv> legislators db"
    and "after \<equiv> legislators (snd (upsert_legislator now lg db))"
  assumes "lg_id lg = Some oid" and "lg_name lg = Some nm"
    and "serials_fresh db" and "distinct (map l_openstates_id before)"
    and "list_all text_ok (legislator_params lg)" and "legislator_fits lg"
    and "legislators_seq db \<le> max_serial"
  shows "fst (upsert_legislator now lg db) = Inr ()
    \<and> distinct (map l_openstates_id after)
    \<and> (take 255 oid \<notin> l_openstates_id ` set before \<longrightarrow>
         after = before @
           [\<lparr>l_id = legislators_seq db, l_openstates_id = take 255 oid, l_name = take 255 nm,
             l_party = stored 50 (legislator_party lg),
             l_chamber = stored 20 (legislator_chamber lg),
             l_district = stored 50 (legislator_district lg), l_image_url = lg_image lg,
             l_email = stored 255 (or_null (lg_email lg)),
             l_phone = stored 50 (or_null (lg_phone lg)),
             l_created_at = now, l_updated_at = now\<rparr>])
    \<and> (take 255 oid \<in> l_openstates_id ` set before \<longrightarrow>
         length after = length before
         \<and> (\<forall>i < length before.
              l_id (after ! i) = l_id (before ! i)
            \<and> l_openstates_id (after ! i) = l_openstates_id (before ! i)
            \<and> l_email (after ! i) = l_email (before ! i)
            \<and> l_phone (after ! i) = l_phone (before ! i)
            \<and> l_image_url (after ! i) = l_image_url (before ! i)
            \<and> l_created_at (after ! i) = l_created_at (before ! i)
            \<and> (if l_openstates_id (before ! i) = take 255 oid
               then l_name (after ! i) = take 255 nm
                  \<and> l_party (after ! i) = stored 50 (legislator_party lg)
                  \<and> l_chamber (after ! i) = stored 20 (legislator_chamber lg)
                  \<and> l_district (after ! i) = stored 50 (legislator_district lg)
                  \<and> l_updated_at (after ! i) = now
               else after ! i = before ! i)))
    \<and> (length oid \<le> 255 \<longrightarrow> take 255 oid = oid)
    \<and> (length nm \<le> 255 \<longrightarrow> take 255 nm = nm)"
proof (cases "list_ex (\<lambda>r. l_openstates_id r = take 255 oid) (legislators db)")
  case True
  then have mem: "take 255 oid \<in> l_openstates_id ` set (legislators db)"
    unfolding list_ex_iff by (metis imageI)
  have keys: "map l_openstates_id
        (map (on_conflict_update_legislator now (take 255 oid) (take 255 nm) lg) (legislators db))
      = map l_openstates_id (legislators db)"
    by (simp add: comp_def on_conflict_keeps_key)
  show ?thesis
    unfolding before_def after_def
    using mem assms(6)[unfolded before_def] keys
    by (simp add: upsert_legislator_conflict[OF assms(7,8,9,3,4) True] comp_def
          on_conflict_keeps_key)
       (simp add: on_conflict_update_legislator_def)
next
  case False
  then have nmem: "take 255 oid \<notin> l_openstates_id ` set (legislators db)"
    unfolding list_ex_iff by (metis imageE)
  from assms(5) have "\<not> list_ex (\<lambda>r. l_id r = legislators_seq db) (legislators db)"
    by (simp add: serials_fresh_def fresh_not_taken)
  from upsert_legislator_new[OF assms(7,8,9,3,4) False this] nmem assms(6)[unfolded before_def]
  show ?thesis unfolding before_def after_def by (simp add: legislator_row_of_def)
qed

text \<open>The same legislator synced twice, the second time with another party and email.\<close>

theorem legislator_upsert_by_external_id_witness:
  "legislators (snd (upsert_legislator 1
       (legislator_of ''ocd-person/1'' (Some ''Ann Lee'') (Some ''Republican'') (Some ''ann@ok.gov''))
       initial_database))
     = [\<lparr>l_id = 1, l_openstates_id = ''ocd-person/1'', l_name = ''Ann Lee'',
          l_party = Some ''Republican'', l_chamber = None, l_district = None, l_image_url = None,
          l_email = Some ''ann@ok.gov'', l_phone = None, l_created_at = 1, l_updated_at = 1\<rparr>]
   \<and> legislators (snd (upsert_legislator 2
       (legislator_of ''ocd-person/1'' (Some ''Ann Lee'') (Some ''Democratic'') (Some ''lee@ok.gov''))
       (snd (upsert_legislator 1
          (legislator_of ''ocd-person/1'' (Some ''Ann Lee'') (Some ''Republican'') (Some ''ann@ok.gov''))
          initial_database))))
     = [\<lparr>l_id = 1, l_openstates_id = ''ocd-person/1'', l_name = ''Ann Lee'',
          l_party = Some ''Democratic'', l_chamber = None, l_district = None, l_image_url = None,
          l_email = Some ''ann@ok.gov'', l_phone = None, l_created_at = 1, l_updated_at = 2\<rparr>]"
  using legislator_upsert_by_external_id
      [of "legislator_of ''ocd-person/1'' (Some ''Ann Lee'') (Some ''Republican'') (Some ''ann@ok.gov'')"
          "''ocd-person/1''" "''Ann Lee''" initial_database 1]
    legislator_upsert_by_external_id
      [of "legislator_of ''ocd-person/1'' (Some ''Ann Lee'') (Some ''Democratic'') (Some ''lee@ok.gov'')"
          "''ocd-person/1''" "''Ann Lee''"
          "snd (upsert_legislator 1
             (legislator_of ''ocd-person/1'' (Some ''Ann Lee'') (Some ''Republican'') (Some ''ann@ok.gov''))
             initial_database)" 2]
    serials_upsert_legislator[of initial_database 1
      "legislator_of ''ocd-person/1'' (Some ''Ann Lee'') (Some ''Republican'') (Some ''ann@ok.gov'')"]
    consistent_initial
  by (simp add: consistent_def statement_defs sample_defs truthy_def Let_def)

section \<open>The paging loops\<close>

declare page_loop.simps [simp del]

lemma page_round_cases:
  obtains (fetch_error) e where "fetch page = Inl e"
      "page_round ep fetch body page n w = Leave (Inl e) (w\<lparr>w_requests := w_requests w @ [(ep, page)]\<rparr>)"
  | (empty) resp where "fetch page = Inr resp" "length (rs_results resp) = 0"
      "page_round ep fetch body page n w = Leave (Inr n) (w\<lparr>w_requests := w_requests w @ [(ep, page)]\<rparr>)"
  | (body_error) resp e db1 where "fetch page = Inr resp" "length (rs_results resp) \<noteq> 0"
      "for_each body (rs_results resp) (w_db w) = (Inl e, db1)"
      "page_round ep fetch body page n w
         = Leave (Inl e) (w\<lparr>w_requests := w_requests w @ [(ep, page)], w_db := db1\<rparr>)"
  | (last) resp db1 where "fetch page = Inr resp" "length (rs_results resp) \<noteq> 0"
      "for_each body (rs_results resp) (w_db w) = (Inr (), db1)" "no_further_pages resp page"
      "page_round ep fetch body page n w
         = Leave (Inr (n + length (rs_results resp)))
             (w\<lparr>w_requests := w_requests w @ [(ep, page)], w_db := db1\<rparr>)"
  | (more) resp db1 where "fetch page = Inr resp" "length (rs_results resp) \<noteq> 0"
      "for_each body (rs_results resp) (w_db w) = (Inr (), db1)" "\<not> no_further_pages resp page"
      "page_round ep fetch body page n w
         = Next_page (n + length (rs_results resp))
             (w\<lparr>w_requests := w_requests w @ [(ep, page)], w_db := db1\<rparr>)"
proof (cases "fetch page")
  case (Inl e)
  then show ?thesis using fetch_error by (simp add: page_round_def Let_def)
next
  case (Inr resp)
  show ?thesis
  proof (cases "length (rs_results resp) = 0")
    case True
    with Inr show ?thesis using empty by (simp add: page_round_def Let_def)
  next
    case False
    obtain r db1 where fe: "for_each body (rs_results resp) (w_db w) = (r, db1)"
      by (cases "for_each body (rs_results resp) (w_db w)")
    show ?thesis
    proof (cases r)
      case (Inl e)
      with Inr False fe show ?thesis using body_error[of resp e db1]
        by (simp add: page_round_def Let_def)
    next
      case r: (Inr u)
      show ?thesis
      proof (cases "no_further_pages resp page")
        case True
        with Inr False fe r show ?thesis using last[of resp db1]
          by (simp add: page_round_def Let_def)
      next
        case nf: False
        with Inr False fe r show ?thesis using more[of resp db1]
          by (simp add: page_round_def Let_def)
      qed
    qed
  qed
qed

lemma page_round_keeps:
  assumes body: "\<And>x db. P db \<Longrightarrow> P (snd (body x db))" and P: "P (w_db w)"
  shows "page_round ep fetch body page n w = Leave r w1 \<Longrightarrow> P (w_db w1)"
    and "page_round ep fetch body page n w = Next_page m w1 \<Longrightarrow> P (w_db w1)"
proof -
  have fe: "\<forall>xs r db1. for_each body xs (w_db w) = (r, db1) \<longrightarrow> P db1"
    using for_each_keeps[of P body, OF body P] by (metis snd_conv)
  show "page_round ep fetch body page n w = Leave r w1 \<Longrightarrow> P (w_db w1)"
    by (cases rule: page_round_cases[of fetch page ep body n w])
       (use P fe in auto)
  show "page_round ep fetch body page n w = Next_page m w1 \<Longrightarrow> P (w_db w1)"
    by (cases rule: page_round_cases[of fetch page ep body n w])
       (use P fe in auto)
qed

lemma page_loop_keeps:
  "(\<And>x db. P db \<Longrightarrow> P (snd (body x db))) \<Longrightarrow> P (w_db w) \<Longrightarrow>
     P (w_db (snd (page_loop cap ep fetch body page n w)))"
proof (induction cap ep fetch body page n w rule: page_loop.induct)
  case (1 cap ep fetch body page n w)
  show ?case
  proof (cases "page \<le> cap")
    case False
    with "1.prems"(2) show ?thesis by (simp add: page_loop.simps)
  next
    case True
    show ?thesis
    proof (cases "page_round ep fetch body page n w")
      case (Leave r w1)
      with page_round_keeps(1)[where P = P, OF "1.prems" Leave] True
      show ?thesis by (simp add: page_loop.simps[of cap ep fetch body page n w])
    next
      case (Next_page m w1)
      from page_round_keeps(2)[where P = P, OF "1.prems" Next_page]
      have "P (w_db w1)" .
      from "1.IH"[OF True Next_page "1.prems"(1) this] True Next_page
      show ?thesis by (simp add: page_loop.simps[of cap ep fetch body page n w])
    qed
  qed
qed

lemma page_round_requests:
  "page_round ep fetch body page n w = Leave r w1 \<Longrightarrow> w_requests w1 = w_requests w @ [(ep, page)]"
  "page_round ep fetch body page n w = Next_page m w1 \<Longrightarrow> w_requests w1 = w_requests w @ [(ep, page)]"
  by (cases rule: page_round_cases[of fetch page ep body n w]; auto)+

lemma page_round_next_no_stop:
  "page_round ep fetch body page n w = Next_page m w1 \<Longrightarrow> page \<noteq> cap \<Longrightarrow>
     \<not> stops_at cap fetch page"
  by (cases rule: page_round_cases[of fetch page ep body n w]) (auto simp: stops_at_def)

lemma page_round_leave_stop:
  "page_round ep fetch body page n w = Leave (Inr m) w1 \<Longrightarrow> stops_at cap fetch page"
  by (cases rule: page_round_cases[of fetch page ep body n w]) (auto simp: stops_at_def)

text \<open>
  A run from any page: the pages requested, the pages passed without stopping, and how
  the run ended.
\<close>

lemma page_loop_run:
  assumes "page \<le> cap"
  shows "\<exists>k. page \<le> k \<and> k \<le> cap
     \<and> w_requests (snd (page_loop cap ep fetch body page n w))
         = w_requests w @ map (Pair ep) [page..<Suc k]
     \<and> (\<forall>p. page \<le> p \<and> p < k \<longrightarrow> \<not> stops_at cap fetch p)
     \<and> (case fst (page_loop cap ep fetch body page n w) of
          Inl e \<Rightarrow> \<exists>n' wk. page_round ep fetch body k n' wk
                               = Leave (Inl e) (snd (page_loop cap ep fetch body page n w))
        | Inr m \<Rightarrow> stops_at cap fetch k)"
  using assms
proof (induction cap ep fetch body page n w rule: page_loop.induct)
  case (1 cap ep fetch body page n w)
  note le = \<open>page \<le> cap\<close>
  show ?case
  proof (cases "page_round ep fetch body page n w")
    case (Leave r w1)
    then have res: "page_loop cap ep fetch body page n w = (r, w1)"
      using le by (simp add: page_loop.simps[of cap ep fetch body page n w])
    have rq: "w_requests w1 = w_requests w @ map (Pair ep) [page..<Suc page]"
      using page_round_requests(1)[OF Leave] by simp
    have last: "case r of Inl e \<Rightarrow> \<exists>n' wk. page_round ep fetch body page n' wk = Leave (Inl e) w1
        | Inr m \<Rightarrow> stops_at cap fetch page"
      using Leave page_round_leave_stop[of ep fetch body page n w _ w1 cap]
      by (auto split: sum.splits)
    show ?thesis
      by (rule exI[of _ page]) (use le res rq last in \<open>auto split: sum.splits\<close>)
  next
    case (Next_page m w1)
    then have res: "page_loop cap ep fetch body page n w
        = page_loop cap ep fetch body (page + 1) m w1"
      using le by (simp add: page_loop.simps[of cap ep fetch body page n w])
    have rq: "w_requests w1 = w_requests w @ [(ep, page)]"
      using page_round_requests(2)[OF Next_page] .
    show ?thesis
    proof (cases "page = cap")
      case True
      then have stop: "page_loop cap ep fetch body (page + 1) m w1 = (Inr m, w1)"
        by (subst page_loop.simps) simp
      have "stops_at cap fetch page" using True by (simp add: stops_at_def)
      then show ?thesis
        by (intro exI[of _ page]) (use le res stop rq in \<open>auto split: sum.splits\<close>)
    next
      case False
      with le have le': "page + 1 \<le> cap" by simp
      from "1.IH"[OF le Next_page le'] obtain k where k: "page + 1 \<le> k" "k \<le> cap"
        "w_requests (snd (page_loop cap ep fetch body (page + 1) m w1))
           = w_requests w1 @ map (Pair ep) [page + 1..<Suc k]"
        "\<forall>p. page + 1 \<le> p \<and> p < k \<longrightarrow> \<not> stops_at cap fetch p"
        "case fst (page_loop cap ep fetch body (page + 1) m w1) of
           Inl e \<Rightarrow> \<exists>n' wk. page_round ep fetch body k n' wk
                               = Leave (Inl e) (snd (page_loop cap ep fetch body (page + 1) m w1))
         | Inr m \<Rightarrow> stops_at cap fetch k"
        by blast
      have here: "\<not> stops_at cap fetch page"
        using page_round_next_no_stop[OF Next_page False] .
      have upt: "[page..<Suc k] = page # [page + 1..<Suc k]"
        using k(1) by (simp add: upt_conv_Cons)
      have nostop: "\<forall>p. page \<le> p \<and> p < k \<longrightarrow> \<not> stops_at cap fetch p"
      proof (intro allI impI)
        fix p assume p: "page \<le> p \<and> p < k"
        show "\<not> stops_at cap fetch p"
        proof (cases "p = page")
          case True with here show ?thesis by simp
        next
          case False
          with p have "page + 1 \<le> p \<and> p < k" by simp
          with k(4) show ?thesis by blast
        qed
      qed
      show ?thesis
        by (rule exI[of _ k]) (use k rq res upt nostop in \<open>auto split: sum.splits\<close>)
    qed
  qed
qed

lemma loop_aborted:
  assumes "1 \<le> cap" and "fst (page_loop cap ep fetch body 1 0 w) = Inl e"
  shows "aborted_in_round cap ep fetch body w e (snd (page_loop cap ep fetch body 1 0 w))"
proof -
  from page_loop_run[OF assms(1), of ep fetch body 0 w] assms(2)
  obtain k n' wk where "1 \<le> k" "k \<le> cap"
    "w_requests (snd (page_loop cap ep fetch body 1 0 w)) = w_requests w @ map (Pair ep) [1..<Suc k]"
    "page_round ep fetch body k n' wk = Leave (Inl e) (snd (page_loop cap ep fetch body 1 0 w))"
    by auto
  then show ?thesis unfolding aborted_in_round_def pages_def by blast
qed

lemma loop_stops_first:
  assumes "1 \<le> cap"
  shows "stops_first cap ep fetch w (page_loop cap ep fetch body 1 0 w)"
proof -
  from page_loop_run[OF assms, of ep fetch body 0 w]
  obtain k where k: "1 \<le> k" "k \<le> cap"
    "w_requests (snd (page_loop cap ep fetch body 1 0 w)) = w_requests w @ map (Pair ep) [1..<Suc k]"
    "\<forall>p. 1 \<le> p \<and> p < k \<longrightarrow> \<not> stops_at cap fetch p"
    "case fst (page_loop cap ep fetch body 1 0 w) of
       Inl e \<Rightarrow> \<exists>n' wk. page_round ep fetch body k n' wk
                           = Leave (Inl e) (snd (page_loop cap ep fetch body 1 0 w))
     | Inr m \<Rightarrow> stops_at cap fetch k"
    by blast
  from k(5) have "isl (fst (page_loop cap ep fetch body 1 0 w)) \<or> stops_at cap fetch k"
    by (cases "fst (page_loop cap ep fetch body 1 0 w)") auto
  with k(1-4) show ?thesis unfolding stops_first_def pages_def
    by (intro bexI[of _ k]) auto
qed

lemma legislator_loop_frame:
  "sync_metadata (w_db (snd (legislator_loop src now w))) = sync_metadata (w_db w)"
  "bills (w_db (snd (legislator_loop src now w))) = bills (w_db w)"
  unfolding legislator_loop_def
  using page_loop_keeps[of "\<lambda>d. sync_metadata d = sync_metadata (w_db w)" "upsert_legislator now" w]
    page_loop_keeps[of "\<lambda>d. bills d = bills (w_db w)" "upsert_legislator now" w]
  by (simp_all add: upsert_legislator_frame)

lemma bill_loop_frame:
  "sync_metadata (w_db (snd (bill_loop pf src now w))) = sync_metadata (w_db w)"
  unfolding bill_loop_def
  using page_loop_keeps[of "\<lambda>d. sync_metadata d = sync_metadata (w_db w)" "sync_bill pf now" w]
  by (simp add: sync_bill_frame)

lemma syncLegislators_unfold:
  "syncLegislators src now w =
     (case fst (legislator_loop src now w) of
        Inr n \<Rightarrow> (Inr n, (snd (legislator_loop src now w))
                   \<lparr>w_db := metadata_success now ''legislators'' n (w_db (snd (legislator_loop src now w)))\<rparr>)
      | Inl e \<Rightarrow> catch_block now ''legislators'' e (snd (legislator_loop src now w)))"
  by (cases "legislator_loop src now w") (simp add: syncLegislators_def split: sum.splits)

lemma syncBills_unfold:
  "syncBills pf src now w =
     (case fst (bill_loop pf src now w) of
        Inr n \<Rightarrow> (Inr n, (snd (bill_loop pf src now w))
                   \<lparr>w_db := metadata_success now ''bills'' n (w_db (snd (bill_loop pf src now w)))\<rparr>)
      | Inl e \<Rightarrow> catch_block now ''bills'' e (snd (bill_loop pf src now w)))"
  by (cases "bill_loop pf src now w") (simp add: syncBills_def split: sum.splits)

text \<open>The \<open>catch\<close> block throws, keeps the requests and the bills, and marks the metadata.\<close>

lemma catch_block_throws:
  "isl (fst (catch_block now t e w))"
  "w_requests (snd (catch_block now t e w)) = w_requests w"
  "bills (w_db (snd (catch_block now t e w))) = bills (w_db w)"
  by (simp_all add: catch_block_def metadata_error_def)

lemma catch_block_marks:
  assumes "text_ok (Some (message e))"
  shows "fst (catch_block now t e w) = Inl e"
    and "sync_metadata (w_db (snd (catch_block now t e w)))
       = map (marked_error now t e) (sync_metadata (w_db w))"
  using assms by (simp_all add: catch_block_def metadata_error_def marked_error_def[abs_def])

lemmas run_defs = page_loop.simps page_round_def legislator_loop_def bill_loop_def
  syncLegislators_def syncBills_def catch_block_def runSync_def process_exit_def pool_end_def
  metadata_error_def metadata_success_def no_further_pages_def legislator_page_cap_def
  maxPages_def fresh_world_def pending_row_def

text \<open>
  Claim C9: the page loops of both syncs always end, and they end at the first
  opportunity: the pages 1 to \<open>k\<close> are requested in order, where \<open>k\<close> is at most the cap;
  at no page before \<open>k\<close> did the page have zero records, the source report no
  further pages, or the cap be reached; and unless the run threw, one of the three holds at
  page \<open>k\<close>. The source reports no further pages when the response has no pagination
  metadata or \<open>page >= max_page\<close> holds in JavaScript: \<open>max_page\<close> is a number not above
  the page, or null; a missing \<open>max_page\<close> never stops the loop. In particular a first page without pagination metadata, processed without
  error, ends the sync after that one request with a success result. The caps are 10 for
  legislators and 20 for bills.
\<close>

theorem page_loops_stop_first:
  "stops_first legislator_page_cap ''/people'' (get_people src) w (legislator_loop src now w)
   \<and> stops_first maxPages ''/bills'' (get_bills src) w (bill_loop pf src now w)
   \<and> (get_people src 1 = Inr lresp \<and> rs_pagination lresp = None
        \<and> fst (for_each (upsert_legislator now) (rs_results lresp) (w_db w)) = Inr ()
      \<longrightarrow> fst (syncLegislators src now w) = Inr (length (rs_results lresp))
        \<and> w_requests (snd (syncLegislators src now w)) = w_requests w @ [(''/people'', 1)])
   \<and> (get_bills src 1 = Inr bresp \<and> rs_pagination bresp = None
        \<and> fst (for_each (sync_bill pf now) (rs_results bresp) (w_db w)) = Inr ()
      \<longrightarrow> fst (syncBills pf src now w) = Inr (length (rs_results bresp))
        \<and> w_requests (snd (syncBills pf src now w)) = w_requests w @ [(''/bills'', 1)])
   \<and> legislator_page_cap = 10 \<and> maxPages = 20 \<and> legislator_page_cap < maxPages"
proof -
  have one: "fst (page_loop cap ep fetch body 1 0 w) = Inr (length (rs_results resp))
      \<and> w_requests (snd (page_loop cap ep fetch body 1 0 w)) = w_requests w @ [(ep, 1)]"
    if cap: "1 \<le> cap" and fetch: "fetch 1 = Inr resp" and nopg: "rs_pagination resp = None"
      and ok: "fst (for_each body (rs_results resp) (w_db w)) = Inr ()"
    for cap ep and fetch :: "nat \<Rightarrow> error + 'x response" and body resp
  proof -
    obtain db1 where "for_each body (rs_results resp) (w_db w) = (Inr (), db1)"
      using ok by (cases "for_each body (rs_results resp) (w_db w)") auto
    with cap fetch nopg have "\<exists>w1. page_loop cap ep fetch body 1 0 w
        = (Inr (length (rs_results resp)), w1) \<and> w_requests w1 = w_requests w @ [(ep, 1)]"
      by (subst page_loop.simps) (simp add: page_round_def Let_def no_further_pages_def)
    then show ?thesis by auto
  qed
  have l: "stops_first legislator_page_cap ''/people'' (get_people src) w (legislator_loop src now w)"
    unfolding legislator_loop_def by (rule loop_stops_first) (simp add: legislator_page_cap_def)
  have b: "stops_first maxPages ''/bills'' (get_bills src) w (bill_loop pf src now w)"
    unfolding bill_loop_def by (rule loop_stops_first) (simp add: maxPages_def)
  have l1: "fst (syncLegislators src now w) = Inr (length (rs_results lresp))
        \<and> w_requests (snd (syncLegislators src now w)) = w_requests w @ [(''/people'', 1)]"
    if "get_people src 1 = Inr lresp \<and> rs_pagination lresp = None
        \<and> fst (for_each (upsert_legislator now) (rs_results lresp) (w_db w)) = Inr ()"
    using one[of legislator_page_cap "get_people src" lresp "upsert_legislator now" "''/people''"] that
    by (simp add: syncLegislators_unfold legislator_loop_def legislator_page_cap_def)
  have b1: "fst (syncBills pf src now w) = Inr (length (rs_results bresp))
        \<and> w_requests (snd (syncBills pf src now w)) = w_requests w @ [(''/bills'', 1)]"
    if "get_bills src 1 = Inr bresp \<and> rs_pagination bresp = None
        \<and> fst (for_each (sync_bill pf now) (rs_results bresp) (w_db w)) = Inr ()"
    using one[of maxPages "get_bills src" bresp "sync_bill pf now" "''/bills''"] that
    by (simp add: syncBills_unfold bill_loop_def maxPages_def)
  show ?thesis using l b l1 b1 by (simp add: legislator_page_cap_def maxPages_def)
qed

text \<open>
  Three legislator pages of which the third is the last; one bill page without
  pagination; a source that never runs out of pages, stopped by the caps; and a source
  whose pagination metadata hold \<open>max_page: null\<close>, left after the first page.
\<close>

theorem page_loops_stop_first_witness:
  "requests_to ''/people'' (snd (legislator_loop sample_source 0 fresh_world)) = [1, 2, 3]
   \<and> \<not> stops_at legislator_page_cap (get_people sample_source) 1
   \<and> \<not> stops_at legislator_page_cap (get_people sample_source) 2
   \<and> stops_at legislator_page_cap (get_people sample_source) 3
   \<and> stops_first legislator_page_cap ''/people'' (get_people sample_source) fresh_world
        (legislator_loop sample_source 0 fresh_world)
   \<and> fst (syncBills sample_platform sample_source 0 fresh_world) = Inr 1
   \<and> w_requests (snd (syncBills sample_platform sample_source 0 fresh_world)) = [(''/bills'', 1)]
   \<and> requests_to ''/people'' (snd (legislator_loop endless_source 0 fresh_world))
       = [1, 2, 3, 4, 5, 6, 7, 8, 9, 10]
   \<and> requests_to ''/bills'' (snd (bill_loop sample_platform endless_source 0 fresh_world))
       = [1, 2, 3, 4, 5, 6, 7, 8, 9, 10, 11, 12, 13, 14, 15, 16, 17, 18, 19, 20]
   \<and> stops_at legislator_page_cap (get_people null_page_source) 1
   \<and> requests_to ''/people'' (snd (legislator_loop null_page_source 0 fresh_world)) = [1]
   \<and> requests_to ''/bills'' (snd (bill_loop sample_platform null_page_source 0 fresh_world)) = [1]"
  using page_loops_stop_first[of sample_source fresh_world 0 sample_platform _
      "\<lparr>rs_results = [bill_of [tagged [''introduction''] ''Introduced''] (Some ''Introduced'')],
        rs_pagination = None\<rparr>"]
  by (simp add: run_defs sample_source_def endless_source_def null_page_source_def statement_defs
      sample_defs classifier_defs Let_def requests_to_def stops_at_def)

section \<open>Errors and the orchestrator\<close>

text \<open>A loop over records ends with the error of the first statement that throws.\<close>

lemma for_each_stops:
  "for_each f ys db = (Inr (), dbx) \<Longrightarrow> f x dbx = (Inl e, db') \<Longrightarrow>
     for_each f (ys @ x # zs) db = (Inl e, db')"
proof (induction ys arbitrary: db)
  case Nil
  then show ?case by simp
next
  case (Cons y ys)
  obtain r d where y: "f y db = (r, d)" by (cases "f y db")
  with Cons.prems(1) have r: "r = Inr ()" and rest: "for_each f ys d = (Inr (), dbx)"
    by (cases r; simp)+
  from Cons.IH[OF rest Cons.prems(2)] y r show ?case by simp
qed

lemma sync_actions_stops:
  "sync_actions pf bid as i db = (Inr (), dbx) \<Longrightarrow>
   insert_action pf bid a (i + length as) dbx = (Inl e, db') \<Longrightarrow>
     sync_actions pf bid (as @ a # as') i db = (Inl e, db')"
proof (induction as arbitrary: i db)
  case Nil
  then show ?case by simp
next
  case (Cons y ys)
  obtain r d where y: "insert_action pf bid y i db = (r, d)" by (cases "insert_action pf bid y i db")
  with Cons.prems(1) have r: "r = Inr ()" and rest: "sync_actions pf bid ys (i + 1) d = (Inr (), dbx)"
    by (cases r; simp)+
  from Cons.prems(2) have "insert_action pf bid a (i + 1 + length ys) dbx = (Inl e, db')"
    by (simp add: add.assoc)
  from Cons.IH[OF rest this] y r show ?case by simp
qed

lemma page_loop_fetch_error:
  assumes "page \<le> cap" and "fetch page = Inl e"
  shows "page_loop cap ep fetch body page n w
     = (Inl e, w\<lparr>w_requests := w_requests w @ [(ep, page)]\<rparr>)"
  using assms by (subst page_loop.simps) (simp add: page_round_def Let_def)

lemma page_loop_storage_error:
  assumes "page \<le> cap" and "fetch page = Inr resp" and "rs_results resp = ys @ x # zs"
    and "for_each body ys (w_db w) = (Inr (), dbx)" and "body x dbx = (Inl e, db')"
  shows "page_loop cap ep fetch body page n w
     = (Inl e, w\<lparr>w_requests := w_requests w @ [(ep, page)], w_db := db'\<rparr>)"
  using assms(1-3) for_each_stops[OF assms(4,5), of zs]
  by (subst page_loop.simps) (simp add: page_round_def Let_def)

lemma sync_bill_upsert_error:
  "upsert_bill pf now b (determineBillStage b) db = (Inl e, db1) \<Longrightarrow>
     sync_bill pf now b db = (Inl e, db1)"
  by (simp add: sync_bill_def)

lemma sync_bill_history_error:
  "upsert_bill pf now b (determineBillStage b) db = (Inr (billId, oldStage), db1) \<Longrightarrow>
   track_stage_change now b billId (determineBillStage b) oldStage db1 = (Inl e, db2) \<Longrightarrow>
     sync_bill pf now b db = (Inl e, db2)"
  by (simp add: sync_bill_def and_then_def)

lemma sync_bill_action_error:
  "upsert_bill pf now b (determineBillStage b) db = (Inr (billId, oldStage), db1) \<Longrightarrow>
   track_stage_change now b billId (determineBillStage b) oldStage db1 = (Inr (), db2) \<Longrightarrow>
   b_actions b = Some (as @ a # as') \<Longrightarrow>
   sync_actions pf billId as 0 db2 = (Inr (), db3) \<Longrightarrow>
   insert_action pf billId a (length as) db3 = (Inl e, db4) \<Longrightarrow>
     sync_bill pf now b db = (Inl e, db4)"
  using sync_actions_stops[of pf billId as 0 db2 db3 a e db4 as']
  by (simp add: sync_bill_def and_then_def sync_bill_actions_def)

lemma sync_bill_sponsorship_error:
  "upsert_bill pf now b (determineBillStage b) db = (Inr (billId, oldStage), db1) \<Longrightarrow>
   track_stage_change now b billId (determineBillStage b) oldStage db1 = (Inr (), db2) \<Longrightarrow>
   sync_bill_actions pf b billId db2 = (Inr (), db3) \<Longrightarrow>
   b_sponsorships b = Some (sps @ sp # sps') \<Longrightarrow>
   for_each (insert_sponsorship billId) sps db3 = (Inr (), db4) \<Longrightarrow>
   insert_sponsorship billId sp db4 = (Inl e, db5) \<Longrightarrow>
     sync_bill pf now b db = (Inl e, db5)"
  using for_each_stops[of "insert_sponsorship billId" sps db3 db4 sp e db5 sps']
  by (simp add: sync_bill_def and_then_def sync_bill_sponsorships_def)

text \<open>
  Claim C8. An error \<open>e\<close> is thrown when the fetch of a page fails or when a storage
  statement rejects its parameters or its row. In both page loops (\<open>page_loop\<close> at their
  cap, endpoint and record body) a failed fetch of a page ends the loop at once with \<open>e\<close>,
  and so does a record whose body throws \<open>e\<close> after the records before it were processed:
  the records after it and the pages after this one are not touched, the state is the one
  the throwing statement left. The body of the bill loop throws \<open>e\<close> when its upsert, its
  history insert, one of its action inserts or one of its sponsorship inserts throws \<open>e\<close>,
  and runs no statement after it. Conversely, when the page loop of a sync type throws
  \<open>e\<close>, it ended in the round that threw: the requests made are the pages up to that
  round and the state is the one that round left. The sync then throws; when the message
  of \<open>e\<close> is a text the storage takes, it has written status \<open>error\<close> and the message to
  the metadata rows of its type, left the other metadata rows alone, and throws \<open>e\<close>. When
  it is the legislator sync that failed, \<open>runSync\<close> exits with code 1 without a request
  to the bill endpoint and without a change to the bill table; when the bill sync fails
  the exit code is 1 as well.
\<close>

theorem sync_error_is_fatal:
  "(page \<le> cap \<and> fetch page = Inl e
    \<longrightarrow> page_loop cap ep fetch body page n w
          = (Inl e, w\<lparr>w_requests := w_requests w @ [(ep, page)]\<rparr>))
   \<and> (page \<le> cap \<and> fetch page = Inr resp \<and> rs_results resp = ys @ x # zs
      \<and> for_each body ys (w_db w) = (Inr (), dbx) \<and> body x dbx = (Inl e, db')
    \<longrightarrow> page_loop cap ep fetch body page n w
          = (Inl e, w\<lparr>w_requests := w_requests w @ [(ep, page)], w_db := db'\<rparr>))
   \<and> (upsert_bill pf now b (determineBillStage b) db = (Inl e, db1)
    \<longrightarrow> sync_bill pf now b db = (Inl e, db1))
   \<and> (upsert_bill pf now b (determineBillStage b) db = (Inr (billId, oldStage), db1)
      \<and> track_stage_change now b billId (determineBillStage b) oldStage db1 = (Inl e, db2)
    \<longrightarrow> sync_bill pf now b db = (Inl e, db2))
   \<and> (upsert_bill pf now b (determineBillStage b) db = (Inr (billId, oldStage), db1)
      \<and> track_stage_change now b billId (determineBillStage b) oldStage db1 = (Inr (), db2)
      \<and> b_actions b = Some (as @ a # as')
      \<and> sync_actions pf billId as 0 db2 = (Inr (), db3)
      \<and> insert_action pf billId a (length as) db3 = (Inl e, db4)
    \<longrightarrow> sync_bill pf now b db = (Inl e, db4))
   \<and> (upsert_bill pf now b (determineBillStage b) db = (Inr (billId, oldStage), db1)
      \<and> track_stage_change now b billId (determineBillStage b) oldStage db1 = (Inr (), db2)
      \<and> sync_bill_actions pf b billId db2 = (Inr (), db3)
      \<and> b_sponsorships b = Some (sps @ sp # sps')
      \<and> for_each (insert_sponsorship billId) sps db3 = (Inr (), db4)
      \<and> insert_sponsorship billId sp db4 = (Inl e, db5)
    \<longrightarrow> sync_bill pf now b db = (Inl e, db5))
   \<and> (fst (legislator_loop src now w) = Inl e \<longrightarrow>
      aborted_in_round legislator_page_cap ''/people'' (get_people src) (upsert_legislator now) w e
        (snd (legislator_loop src now w))
    \<and> isl (fst (syncLegislators src now w))
    \<and> (text_ok (Some (message e)) \<longrightarrow>
         fst (syncLegislators src now w) = Inl e
       \<and> sync_metadata (w_db (snd (syncLegislators src now w)))
          = map (marked_error now ''legislators'' e) (sync_metadata (w_db w)))
    \<and> runSync pf src now w = process_exit 1 (snd (syncLegislators src now w))
    \<and> o_exit_code (runSync pf src now w) = 1
    \<and> requests_to ''/bills'' (o_world (runSync pf src now w)) = requests_to ''/bills'' w
    \<and> bills (w_db (o_world (runSync pf src now w))) = bills (w_db w))
   \<and> (fst (bill_loop pf src now w) = Inl e \<longrightarrow>
      aborted_in_round maxPages ''/bills'' (get_bills src) (sync_bill pf now) w e
        (snd (bill_loop pf src now w))
    \<and> isl (fst (syncBills pf src now w))
    \<and> (text_ok (Some (message e)) \<longrightarrow>
         fst (syncBills pf src now w) = Inl e
       \<and> sync_metadata (w_db (snd (syncBills pf src now w)))
          = map (marked_error now ''bills'' e) (sync_metadata (w_db w))))
   \<and> (isl (fst (syncBills pf src now (snd (syncLegislators src now w)))) \<longrightarrow>
        o_exit_code (runSync pf src now w) = 1)"
proof (intro conjI impI)
  assume "page \<le> cap \<and> fetch page = Inl e"
  then show "page_loop cap ep fetch body page n w
      = (Inl e, w\<lparr>w_requests := w_requests w @ [(ep, page)]\<rparr>)"
    by (simp add: page_loop_fetch_error)
next
  assume "page \<le> cap \<and> fetch page = Inr resp \<and> rs_results resp = ys @ x # zs
      \<and> for_each body ys (w_db w) = (Inr (), dbx) \<and> body x dbx = (Inl e, db')"
  then show "page_loop cap ep fetch body page n w
      = (Inl e, w\<lparr>w_requests := w_requests w @ [(ep, page)], w_db := db'\<rparr>)"
    using page_loop_storage_error[of page cap fetch resp ys x zs body w dbx e db' ep n] by simp
next
  assume "upsert_bill pf now b (determineBillStage b) db = (Inl e, db1)"
  then show "sync_bill pf now b db = (Inl e, db1)"
    by (rule sync_bill_upsert_error)
next
  assume "upsert_bill pf now b (determineBillStage b) db = (Inr (billId, oldStage), db1)
      \<and> track_stage_change now b billId (determineBillStage b) oldStage db1 = (Inl e, db2)"
  then show "sync_bill pf now b db = (Inl e, db2)"
    using sync_bill_history_error[of pf now b db billId oldStage db1 e db2] by simp
next
  assume "upsert_bill pf now b (determineBillStage b) db = (Inr (billId, oldStage), db1)
      \<and> track_stage_change now b billId (determineBillStage b) oldStage db1 = (Inr (), db2)
      \<and> b_actions b = Some (as @ a # as')
      \<and> sync_actions pf billId as 0 db2 = (Inr (), db3)
      \<and> insert_action pf billId a (length as) db3 = (Inl e, db4)"
  then show "sync_bill pf now b db = (Inl e, db4)"
    using sync_bill_action_error[of pf now b db billId oldStage db1 db2 as a as' db3 e db4] by simp
next
  assume "upsert_bill pf now b (determineBillStage b) db = (Inr (billId, oldStage), db1)
      \<and> track_stage_change now b billId (determineBillStage b) oldStage db1 = (Inr (), db2)
      \<and> sync_bill_actions pf b billId db2 = (Inr (), db3)
      \<and> b_sponsorships b = Some (sps @ sp # sps')
      \<and> for_each (insert_sponsorship billId) sps db3 = (Inr (), db4)
      \<and> insert_sponsorship billId sp db4 = (Inl e, db5)"
  then show "sync_bill pf now b db = (Inl e, db5)"
    using sync_bill_sponsorship_error[of pf now b db billId oldStage db1 db2 db3 sps sp sps' db4 e db5]
    by simp
next
  assume err: "fst (legislator_loop src now w) = Inl e"
  show ab: "aborted_in_round legislator_page_cap ''/people'' (get_people src) (upsert_legislator now)
      w e (snd (legislator_loop src now w))"
    using loop_aborted[of legislator_page_cap "''/people''" "get_people src" "upsert_legislator now" w e]
      err by (simp add: legislator_loop_def legislator_page_cap_def)
  have sl: "syncLegislators src now w
      = catch_block now ''legislators'' e (snd (legislator_loop src now w))"
    using err by (simp add: syncLegislators_unfold)
  show thrown: "isl (fst (syncLegislators src now w))"
    by (simp add: sl catch_block_throws)
  show rs: "runSync pf src now w = process_exit 1 (snd (syncLegislators src now w))"
    using thrown by (cases "syncLegislators src now w") (auto simp: runSync_def split: sum.splits)
  show "o_exit_code (runSync pf src now w) = 1"
    by (simp add: rs process_exit_def)
  from ab obtain k where "w_requests (snd (legislator_loop src now w))
      = w_requests w @ pages ''/people'' k"
    unfolding aborted_in_round_def by blast
  then show "requests_to ''/bills'' (o_world (runSync pf src now w)) = requests_to ''/bills'' w"
    by (simp add: rs process_exit_def sl catch_block_throws requests_to_def pages_def filter_map
        comp_def)
  show "bills (w_db (o_world (runSync pf src now w))) = bills (w_db w)"
    by (simp add: rs process_exit_def sl catch_block_throws legislator_loop_frame)
  assume "text_ok (Some (message e))"
  then show "fst (syncLegislators src now w) = Inl e"
    and "sync_metadata (w_db (snd (syncLegislators src now w)))
        = map (marked_error now ''legislators'' e) (sync_metadata (w_db w))"
    by (simp_all add: sl catch_block_marks legislator_loop_frame)
next
  assume err: "fst (bill_loop pf src now w) = Inl e"
  show "aborted_in_round maxPages ''/bills'' (get_bills src) (sync_bill pf now) w e
        (snd (bill_loop pf src now w))"
    using loop_aborted[of maxPages "''/bills''" "get_bills src" "sync_bill pf now" w e]
      err by (simp add: bill_loop_def maxPages_def)
  have sb: "syncBills pf src now w = catch_block now ''bills'' e (snd (bill_loop pf src now w))"
    using err by (simp add: syncBills_unfold)
  show "isl (fst (syncBills pf src now w))"
    by (simp add: sb catch_block_throws)
  assume "text_ok (Some (message e))"
  then show "fst (syncBills pf src now w) = Inl e"
    and "sync_metadata (w_db (snd (syncBills pf src now w)))
        = map (marked_error now ''bills'' e) (sync_metadata (w_db w))"
    by (simp_all add: sb catch_block_marks bill_loop_frame)
next
  assume err: "isl (fst (syncBills pf src now (snd (syncLegislators src now w))))"
  show "o_exit_code (runSync pf src now w) = 1"
    using err
    by (cases "syncLegislators src now w"; cases "syncBills pf src now (snd (syncLegislators src now w))")
       (auto simp: runSync_def process_exit_def split: sum.splits)
qed

lemmas run_sample_defs = run_defs flaky_source_def nameless_source_def undated_source_def
  undated_def second_bill_def statement_defs sample_defs classifier_defs Let_def requests_to_def

text \<open>
  The second legislator page answers with status 500; the second legislator of a page
  has no name, and the third is not stored; the second action of a bill has no date the
  storage reads, and neither the bill after it nor a second page is processed.
\<close>

theorem sync_error_is_fatal_witness:
  "get_people flaky_source 2 = Inl (FetchError ''Request failed with status code 500'')
   \<and> fst (legislator_loop flaky_source 7 fresh_world)
     = Inl (FetchError ''Request failed with status code 500'')
   \<and> requests_to ''/people'' (o_world (runSync sample_platform flaky_source 7 fresh_world)) = [1, 2]
   \<and> requests_to ''/bills'' (o_world (runSync sample_platform flaky_source 7 fresh_world)) = []
   \<and> o_exit_code (runSync sample_platform flaky_source 7 fresh_world) = 1
   \<and> map (\<lambda>m. (m_sync_type m, m_status m, m_error_message m))
        (sync_metadata (w_db (o_world (runSync sample_platform flaky_source 7 fresh_world))))
      = [(''bills'', Some ''pending'', None),
         (''legislators'', Some ''error'', Some ''Request failed with status code 500''),
         (''actions'', Some ''pending'', None), (''votes'', Some ''pending'', None)]
   \<and> fst (upsert_legislator 7 (legislator_of ''ocd-person/2'' None (Some ''Democratic'') None)
        (snd (upsert_legislator 7
           (legislator_of ''ocd-person/1'' (Some ''Ann Lee'') (Some ''Republican'') None)
           initial_database)))
      = Inl (null_value ''name'')
   \<and> fst (legislator_loop nameless_source 7 fresh_world) = Inl (null_value ''name'')
   \<and> map l_name (legislators (w_db (o_world (runSync sample_platform nameless_source 7 fresh_world))))
      = [''Ann Lee'']
   \<and> w_requests (o_world (runSync sample_platform nameless_source 7 fresh_world)) = [(''/people'', 1)]
   \<and> o_exit_code (runSync sample_platform nameless_source 7 fresh_world) = 1
   \<and> map (\<lambda>m. (m_sync_type m, m_status m, m_error_message m))
        (sync_metadata (w_db (o_world (runSync sample_platform nameless_source 7 fresh_world))))
      = [(''bills'', Some ''pending'', None),
         (''legislators'', Some ''error'', Some ''null value in column name''),
         (''actions'', Some ''pending'', None), (''votes'', Some ''pending'', None)]
   \<and> fst (syncLegislators undated_source 7 fresh_world) = Inr 1
   \<and> fst (bill_loop sample_platform undated_source 7 (snd (syncLegislators undated_source 7 fresh_world)))
      = Inl invalid_date
   \<and> map r_openstates_id
        (bills (w_db (o_world (runSync sample_platform undated_source 7 fresh_world))))
      = [''ocd-bill/1'']
   \<and> map ar_description
        (bill_actions (w_db (o_world (runSync sample_platform undated_source 7 fresh_world))))
      = [''Introduced'']
   \<and> requests_to ''/bills'' (o_world (runSync sample_platform undated_source 7 fresh_world)) = [1]
   \<and> o_exit_code (runSync sample_platform undated_source 7 fresh_world) = 1
   \<and> map (\<lambda>m. (m_sync_type m, m_status m, m_error_message m))
        (sync_metadata (w_db (o_world (runSync sample_platform undated_source 7 fresh_world))))
      = [(''bills'', Some ''error'', Some ''invalid input syntax for type date''),
         (''legislators'', Some ''success'', None),
         (''actions'', Some ''pending'', None), (''votes'', Some ''pending'', None)]"
proof -
  let ?e1 = "FetchError ''Request failed with status code 500''"
  let ?ann = "legislator_of ''ocd-person/1'' (Some ''Ann Lee'') (Some ''Republican'') None"
  let ?x = "legislator_of ''ocd-person/2'' None (Some ''Democratic'') None"
  let ?cy = "legislator_of ''ocd-person/3'' (Some ''Cy Poe'') (Some ''Republican'') None"
  let ?dbx = "snd (upsert_legislator 7 ?ann initial_database)"
  let ?w3 = "snd (syncLegislators undated_source 7 fresh_world)"
  let ?intro = "tagged [''introduction''] ''Introduced''"
  let ?b = "bill_of [?intro, undated] (Some ''Referred'')"
  let ?db1 = "snd (upsert_bill sample_platform 7 ?b (determineBillStage ?b) (w_db ?w3))"
  let ?db3 = "snd (sync_actions sample_platform 1 [?intro] 0 ?db1)"
  txt \<open>The fetch of the second legislator page fails.\<close>
  have fetch2: "2 \<le> legislator_page_cap \<and> get_people flaky_source 2 = Inl ?e1"
    by (simp add: legislator_page_cap_def flaky_source_def)
  have flaky_run: "fst (legislator_loop flaky_source 7 fresh_world) = Inl ?e1"
    by (simp add: run_sample_defs)
  have msg1: "text_ok (Some (message ?e1))"
    by (simp add: column_defs)
  note flaky_page = sync_error_is_fatal[where page = 2 and cap = legislator_page_cap
      and fetch = "get_people flaky_source" and e = ?e1 and ep = "''/people''"
      and body = "upsert_legislator 7" and n = 1 and w = fresh_world, THEN conjunct1]
  note flaky_sync = sync_error_is_fatal[where src = flaky_source and now = 7 and w = fresh_world
      and pf = sample_platform and e = ?e1,
      THEN conjunct2, THEN conjunct2, THEN conjunct2, THEN conjunct2, THEN conjunct2,
      THEN conjunct2, THEN conjunct1]
  from flaky_page fetch2
  have "page_loop legislator_page_cap ''/people'' (get_people flaky_source) (upsert_legislator 7)
      2 1 fresh_world = (Inl ?e1, fresh_world\<lparr>w_requests := w_requests fresh_world @ [(''/people'', 2)]\<rparr>)"
    by (rule mp)
  from flaky_sync flaky_run msg1
  have flaky: "o_exit_code (runSync sample_platform flaky_source 7 fresh_world) = 1"
    "requests_to ''/bills'' (o_world (runSync sample_platform flaky_source 7 fresh_world))
       = requests_to ''/bills'' fresh_world"
    by blast+
  txt \<open>The second legislator of the page is rejected.\<close>
  have rejected: "1 \<le> legislator_page_cap
      \<and> get_people nameless_source 1
          = Inr \<lparr>rs_results = [?ann, ?x, ?cy], rs_pagination = Some \<lparr>pg_max_page = Number 5\<rparr>\<rparr>
      \<and> rs_results \<lparr>rs_results = [?ann, ?x, ?cy], rs_pagination = Some \<lparr>pg_max_page = Number 5\<rparr>\<rparr>
          = [?ann] @ ?x # [?cy]
      \<and> for_each (upsert_legislator 7) [?ann] (w_db fresh_world) = (Inr (), ?dbx)
      \<and> upsert_legislator 7 ?x ?dbx = (Inl (null_value ''name''), ?dbx\<lparr>legislators_seq := 3\<rparr>)"
    by (simp add: run_sample_defs)
  note nameless_page = sync_error_is_fatal[where page = 1 and cap = legislator_page_cap
      and fetch = "get_people nameless_source" and e = "null_value ''name''" and ep = "''/people''"
      and body = "upsert_legislator 7" and n = 0 and w = fresh_world
      and resp = "\<lparr>rs_results = [?ann, ?x, ?cy], rs_pagination = Some \<lparr>pg_max_page = Number 5\<rparr>\<rparr>"
      and ys = "[?ann]" and x = ?x and zs = "[?cy]" and dbx = ?dbx
      and db' = "?dbx\<lparr>legislators_seq := 3\<rparr>", THEN conjunct2, THEN conjunct1]
  note nameless_sync = sync_error_is_fatal[where src = nameless_source and now = 7
      and w = fresh_world and pf = sample_platform and e = "null_value ''name''",
      THEN conjunct2, THEN conjunct2, THEN conjunct2, THEN conjunct2, THEN conjunct2,
      THEN conjunct2, THEN conjunct1]
  from nameless_page rejected
  have "page_loop legislator_page_cap ''/people'' (get_people nameless_source) (upsert_legislator 7)
      1 0 fresh_world
    = (Inl (null_value ''name''),
       fresh_world\<lparr>w_requests := w_requests fresh_world @ [(''/people'', 1)],
                    w_db := ?dbx\<lparr>legislators_seq := 3\<rparr>\<rparr>)"
    by (rule mp)
  then have nameless_run: "fst (legislator_loop nameless_source 7 fresh_world) = Inl (null_value ''name'')"
    by (simp add: legislator_loop_def)
  with nameless_sync
  have nameless: "o_exit_code (runSync sample_platform nameless_source 7 fresh_world) = 1"
    by blast
  txt \<open>The second action of the first bill is rejected.\<close>
  have undated_action: "upsert_bill sample_platform 7 ?b (determineBillStage ?b) (w_db ?w3)
        = (Inr (1, None), ?db1)
      \<and> track_stage_change 7 ?b 1 (determineBillStage ?b) None ?db1 = (Inr (), ?db1)
      \<and> b_actions ?b = Some ([?intro] @ undated # [])
      \<and> sync_actions sample_platform 1 [?intro] 0 ?db1 = (Inr (), ?db3)
      \<and> insert_action sample_platform 1 undated (length [?intro]) ?db3 = (Inl invalid_date, ?db3)"
    by (simp add: run_sample_defs)
  note undated_bill = sync_error_is_fatal[where pf = sample_platform and now = 7 and b = ?b
      and db = "w_db ?w3" and billId = 1 and oldStage = None and ?db1.0 = ?db1 and ?db2.0 = ?db1
      and as = "[?intro]" and a = undated and as' = "[]" and ?db3.0 = ?db3 and ?db4.0 = ?db3
      and e = invalid_date,
      THEN conjunct2, THEN conjunct2, THEN conjunct2, THEN conjunct2, THEN conjunct1]
  from undated_bill undated_action
  have bill_thrown: "sync_bill sample_platform 7 ?b (w_db ?w3) = (Inl invalid_date, ?db3)"
    by (rule mp)
  have page1: "1 \<le> maxPages
      \<and> get_bills undated_source 1
          = Inr \<lparr>rs_results = [?b, second_bill], rs_pagination = Some \<lparr>pg_max_page = Number 2\<rparr>\<rparr>
      \<and> rs_results \<lparr>rs_results = [?b, second_bill], rs_pagination = Some \<lparr>pg_max_page = Number 2\<rparr>\<rparr>
          = [] @ ?b # [second_bill]
      \<and> for_each (sync_bill sample_platform 7) [] (w_db ?w3) = (Inr (), w_db ?w3)"
    by (simp add: maxPages_def undated_source_def)
  note undated_page = sync_error_is_fatal[where page = 1 and cap = maxPages
      and fetch = "get_bills undated_source" and e = invalid_date and ep = "''/bills''"
      and body = "sync_bill sample_platform 7" and n = 0 and w = ?w3
      and resp = "\<lparr>rs_results = [?b, second_bill], rs_pagination = Some \<lparr>pg_max_page = Number 2\<rparr>\<rparr>"
      and ys = "[]" and x = ?b and zs = "[second_bill]" and dbx = "w_db ?w3" and db' = ?db3,
      THEN conjunct2, THEN conjunct1]
  note undated_sync = sync_error_is_fatal[where src = undated_source and now = 7 and w = ?w3
      and pf = sample_platform and e = invalid_date,
      THEN conjunct2, THEN conjunct2, THEN conjunct2, THEN conjunct2, THEN conjunct2,
      THEN conjunct2, THEN conjunct2, THEN conjunct1]
  note undated_exit = sync_error_is_fatal[where src = undated_source and now = 7
      and w = fresh_world and pf = sample_platform,
      THEN conjunct2, THEN conjunct2, THEN conjunct2, THEN conjunct2, THEN conjunct2,
      THEN conjunct2, THEN conjunct2, THEN conjunct2]
  from undated_page page1 bill_thrown
  have "page_loop maxPages ''/bills'' (get_bills undated_source) (sync_bill sample_platform 7) 1 0 ?w3
    = (Inl invalid_date, ?w3\<lparr>w_requests := w_requests ?w3 @ [(''/bills'', 1)], w_db := ?db3\<rparr>)"
    by blast
  then have undated_run: "fst (bill_loop sample_platform undated_source 7 ?w3) = Inl invalid_date"
    by (simp add: bill_loop_def)
  with undated_sync have "isl (fst (syncBills sample_platform undated_source 7 ?w3))"
    by blast
  with undated_exit
  have undated: "o_exit_code (runSync sample_platform undated_source 7 fresh_world) = 1"
    by blast
  have rest: "get_people flaky_source 2 = Inl ?e1
   \<and> requests_to ''/people'' (o_world (runSync sample_platform flaky_source 7 fresh_world)) = [1, 2]
   \<and> requests_to ''/bills'' fresh_world = []
   \<and> map (\<lambda>m. (m_sync_type m, m_status m, m_error_message m))
        (sync_metadata (w_db (o_world (runSync sample_platform flaky_source 7 fresh_world))))
      = [(''bills'', Some ''pending'', None),
         (''legislators'', Some ''error'', Some ''Request failed with status code 500''),
         (''actions'', Some ''pending'', None), (''votes'', Some ''pending'', None)]
   \<and> fst (upsert_legislator 7 ?x ?dbx) = Inl (null_value ''name'')
   \<and> map l_name (legislators (w_db (o_world (runSync sample_platform nameless_source 7 fresh_world))))
      = [''Ann Lee'']
   \<and> w_requests (o_world (runSync sample_platform nameless_source 7 fresh_world)) = [(''/people'', 1)]
   \<and> map (\<lambda>m. (m_sync_type m, m_status m, m_error_message m))
        (sync_metadata (w_db (o_world (runSync sample_platform nameless_source 7 fresh_world))))
      = [(''bills'', Some ''pending'', None),
         (''legislators'', Some ''error'', Some ''null value in column name''),
         (''actions'', Some ''pending'', None), (''votes'', Some ''pending'', None)]
   \<and> fst (syncLegislators undated_source 7 fresh_world) = Inr 1
   \<and> map r_openstates_id
        (bills (w_db (o_world (runSync sample_platform undated_source 7 fresh_world))))
      = [''ocd-bill/1'']
   \<and> map ar_description
        (bill_actions (w_db (o_world (runSync sample_platform undated_source 7 fresh_world))))
      = [''Introduced'']
   \<and> requests_to ''/bills'' (o_world (runSync sample_platform undated_source 7 fresh_world)) = [1]
   \<and> map (\<lambda>m. (m_sync_type m, m_status m, m_error_message m))
        (sync_metadata (w_db (o_world (runSync sample_platform undated_source 7 fresh_world))))
      = [(''bills'', Some ''error'', Some ''invalid input syntax for type date''),
         (''legislators'', Some ''success'', None),
         (''actions'', Some ''pending'', None), (''votes'', Some ''pending'', None)]"
    by (simp add: run_sample_defs)
  from flaky_run flaky nameless_run nameless undated_run undated rest show ?thesis by simp
qed

text \<open>\<open>pool.end()\<close> is reached exactly when both syncs returned.\<close>

lemma pool_ended_iff_both_returned:
  "o_pool_ended (runSync pf src now w)
     = (\<not> isl (fst (syncLegislators src now w))
        \<and> \<not> isl (fst (syncBills pf src now (snd (syncLegislators src now w)))))"
  by (cases "syncLegislators src now w"; cases "syncBills pf src now (snd (syncLegislators src now w))")
     (auto simp: runSync_def process_exit_def pool_end_def split: sum.splits)

text \<open>
  Claim C7 on the code: the legislator endpoint times out. \<open>syncLegislators\<close> throws,
  the \<open>catch\<close> block of \<open>runSync\<close> calls \<open>process.exit(1)\<close>, and the process ends with the
  pool never ended.
\<close>

theorem pool_not_ended_when_sync_fails:
  "fst (syncLegislators failing_source 0 fresh_world) = Inl (FetchError ''timeout of 10000ms exceeded'')
   \<and> o_pool_ended (runSync sample_platform failing_source 0 fresh_world) = False
   \<and> o_exit_code (runSync sample_platform failing_source 0 fresh_world) = 1"
  by (simp add: run_defs failing_source_def column_defs)

section \<open>Stored stages\<close>

lemma runSync_world:
  "o_world (runSync pf src now w) =
     (case fst (syncLegislators src now w) of
        Inl e \<Rightarrow> snd (syncLegislators src now w)
      | Inr n \<Rightarrow> snd (syncBills pf src now (snd (syncLegislators src now w))))"
  by (cases "syncLegislators src now w"; cases "syncBills pf src now (snd (syncLegislators src now w))")
     (auto simp: runSync_def process_exit_def pool_end_def split: sum.splits)

lemma catch_block_keeps:
  assumes "\<And>msg db. P db \<Longrightarrow> P (snd (metadata_error now t msg db))" and "P (w_db w)"
  shows "P (w_db (snd (catch_block now t e w)))"
  using assms(1)[OF assms(2), of "message e"]
  by (cases "metadata_error now t (message e) (w_db w)")
     (auto simp: catch_block_def split: sum.splits)

text \<open>A run keeps whatever every statement of the pipeline keeps.\<close>

lemma runSync_keeps:
  assumes lg: "\<And>lg db. P db \<Longrightarrow> P (snd (upsert_legislator now lg db))"
    and sb: "\<And>b db. P db \<Longrightarrow> P (snd (sync_bill pf now b db))"
    and me: "\<And>t msg db. P db \<Longrightarrow> P (snd (metadata_error now t msg db))"
    and ms: "\<And>t n db. P db \<Longrightarrow> P (metadata_success now t n db)"
    and P: "P (w_db w)"
  shows "P (w_db (o_world (runSync pf src now w)))"
proof -
  have l: "P (w_db (snd (syncLegislators src now w')))" if "P (w_db w')" for w'
    using page_loop_keeps[of P "upsert_legislator now" w' legislator_page_cap
        "''/people''" "get_people src" 1 0, OF lg that]
    by (simp add: syncLegislators_unfold legislator_loop_def catch_block_keeps[of P] me ms
        split: sum.splits)
  have b: "P (w_db (snd (syncBills pf src now w')))" if "P (w_db w')" for w'
    using page_loop_keeps[of P "sync_bill pf now" w' maxPages "''/bills''" "get_bills src" 1 0,
        OF sb that]
    by (simp add: syncBills_unfold bill_loop_def catch_block_keeps[of P] me ms split: sum.splits)
  show ?thesis
    using l[OF P] b[OF l[OF P]] by (simp add: runSync_world split: sum.splits)
qed

lemma stages_runSync:
  "stages_classified (w_db w) \<Longrightarrow> stages_classified (w_db (o_world (runSync pf src now w)))"
  by (rule runSync_keeps[of stages_classified])
     (simp_all add: stages_upsert_legislator stages_sync_bill stages_metadata)

lemma consistent_runSync:
  "consistent (w_db w) \<Longrightarrow> consistent (w_db (o_world (runSync pf src now w)))"
  by (rule runSync_keeps[of consistent])
     (simp_all add: consistent_upsert_legislator consistent_sync_bill consistent_metadata)

lemma upsert_bill_rows:
  "r \<in> set (bills (snd (upsert_bill pf now b stage db))) \<Longrightarrow>
     r \<in> set (bills db) \<or> r_stage r = Some (take 50 stage)"
  using upsert_bill_form[OF refl, of pf now b stage db]
  apply (elim disjE exE conjE)
  apply (simp_all add: on_conflict_update_bill_def bill_row_of_def stored_def)
  apply (auto split: if_splits)
  done

lemma sync_bill_rows:
  assumes "r \<in> set (bills (snd (sync_bill pf now b db)))"
  shows "r \<in> set (bills db) \<or> r_stage r = Some (determineBillStage b)"
proof -
  have "\<forall>r\<in>set (bills (snd (sync_bill pf now b db))).
          r \<in> set (bills db) \<or> r_stage r = Some (determineBillStage b)"
    by (rule sync_bill_keeps[of "\<lambda>d. \<forall>r\<in>set (bills d).
          r \<in> set (bills db) \<or> r_stage r = Some (determineBillStage b)"])
       (auto simp: insert_history_frame insert_action_frame insert_sponsorship_frame
          determineBillStage_stored dest: upsert_bill_rows)
  with assms show ?thesis by blast
qed

lemma insert_history_rows:
  "h \<in> set (bill_history (snd (insert_history now bid stage st old db))) \<Longrightarrow>
     h \<in> set (bill_history db) \<or> h_stage h = take 50 stage"
  using insert_history_form[OF refl, of now bid stage st old db]
  apply (elim disjE exE conjE)
  apply (simp_all add: history_row_of_def)
  apply auto
  done

lemma sync_bill_history_rows:
  assumes "h \<in> set (bill_history (snd (sync_bill pf now b db)))"
  shows "h \<in> set (bill_history db) \<or> h_stage h = determineBillStage b"
proof -
  have "\<forall>h\<in>set (bill_history (snd (sync_bill pf now b db))).
          h \<in> set (bill_history db) \<or> h_stage h = determineBillStage b"
    by (rule sync_bill_keeps[of "\<lambda>d. \<forall>h\<in>set (bill_history d).
          h \<in> set (bill_history db) \<or> h_stage h = determineBillStage b"])
       (auto simp: upsert_bill_frame insert_action_frame insert_sponsorship_frame
          determineBillStage_stored dest: insert_history_rows)
  with assms show ?thesis by blast
qed

text \<open>
  Claim C10: for every bill both copies of the classifier return one of the nine values
  \<open>introduced\<close>, \<open>committee\<close>, \<open>committee_approved\<close>, \<open>floor_calendar\<close>, \<open>passed_chamber\<close>,
  \<open>enrolled\<close>, \<open>signed\<close>, \<open>vetoed\<close>, \<open>became_law\<close>, never \<open>dead\<close>. Syncing a bill leaves
  every bill row, and every history row, either as it was or with the classifier's result
  as its stage, so a run of the pipeline on a database whose stored stages are among the
  nine leaves them among the nine.
\<close>

theorem stage_is_one_of_nine:
  "determineBillStage b \<in> set nine_stages
   \<and> determineBillStage_server b \<in> set nine_stages
   \<and> ''dead'' \<notin> set nine_stages
   \<and> (\<forall>r\<in>set (bills (snd (sync_bill pf now b db))).
         r \<in> set (bills db) \<or> r_stage r = Some (determineBillStage b))
   \<and> (\<forall>h\<in>set (bill_history (snd (sync_bill pf now b db))).
         h \<in> set (bill_history db) \<or> h_stage h = determineBillStage b)
   \<and> (stages_classified (w_db w) \<longrightarrow> stages_classified (w_db (o_world (runSync pf src now w))))"
  using determineBillStage_range[of b] determineBillStage_server_range[of b]
    sync_bill_rows[of _ pf now b db] sync_bill_history_rows[of _ pf now b db]
    stages_runSync[of w pf src now]
  by (auto simp: nine_stages_def)

text \<open>A full run on the database of \<open>schema.sql\<close> against the sample source.\<close>

theorem stage_is_one_of_nine_witness:
  "stages_classified (w_db fresh_world)
   \<and> stages_classified (w_db (o_world (runSync sample_platform sample_source 0 fresh_world)))
   \<and> map r_stage (bills (w_db (o_world (runSync sample_platform sample_source 0 fresh_world))))
       = [Some ''introduced'']"
  using stage_is_one_of_nine[where w = fresh_world and src = sample_source and now = 0
      and pf = sample_platform]
  by (simp add: run_defs sample_source_def statement_defs sample_defs classifier_defs Let_def
      stages_classified_def nine_stages_def)

end
